theory Spec2Isabelle
  imports Complex_Main
begin

section \<open>Numeric arrays\<close>

text \<open>
  Array entries are numpy double-precision values.  They are modelled as exact real
  numbers extended with the IEEE special values, so that a division by zero is not
  silently \<open>0\<close> as in HOL but \<open>inf\<close> or \<open>nan\<close> as in numpy.  Rounding, underflow
  and overflow of finite values are not modelled, and zero carries no sign; arrays of
  integer dtype are outside the model.  Properties that depend on the rounding of
  double precision are therefore not stated below, and a property is stated only on
  inputs where underflow and overflow do not decide it.
\<close>

datatype npfloat = Fin real | PInf | NInf | NaN

datatype error = KeyError string | IndexError | TypeError | ValueError

definition ebind :: "error + 'a \<Rightarrow> ('a \<Rightarrow> error + 'b) \<Rightarrow> error + 'b" where
  "ebind m f = (case m of Inl e \<Rightarrow> Inl e | Inr x \<Rightarrow> f x)"

fun is_fin :: "npfloat \<Rightarrow> bool" where
  "is_fin (Fin a) = True"
| "is_fin x = False"

fun np_negative :: "npfloat \<Rightarrow> bool" where
  "np_negative (Fin a) = (a < 0)"
| "np_negative NInf = True"
| "np_negative x = False"

fun np_neg :: "npfloat \<Rightarrow> npfloat" where
  "np_neg (Fin a) = Fin (- a)"
| "np_neg PInf = NInf"
| "np_neg NInf = PInf"
| "np_neg NaN = NaN"

fun np_add :: "npfloat \<Rightarrow> npfloat \<Rightarrow> npfloat" where
  "np_add (Fin a) (Fin b) = Fin (a + b)"
| "np_add NaN y = NaN"
| "np_add x NaN = NaN"
| "np_add PInf NInf = NaN"
| "np_add NInf PInf = NaN"
| "np_add PInf y = PInf"
| "np_add x PInf = PInf"
| "np_add NInf y = NInf"
| "np_add x NInf = NInf"

definition np_sub :: "npfloat \<Rightarrow> npfloat \<Rightarrow> npfloat" where
  "np_sub x y = np_add x (np_neg y)"

fun np_mul :: "npfloat \<Rightarrow> npfloat \<Rightarrow> npfloat" where
  "np_mul (Fin a) (Fin b) = Fin (a * b)"
| "np_mul NaN y = NaN"
| "np_mul x NaN = NaN"
| "np_mul x y =
     (if x = Fin 0 \<or> y = Fin 0 then NaN
      else if np_negative x = np_negative y then PInf else NInf)"

fun np_div :: "npfloat \<Rightarrow> npfloat \<Rightarrow> npfloat" where
  "np_div (Fin a) (Fin b) =
     (if b \<noteq> 0 then Fin (a / b)
      else if a = 0 then NaN else if 0 < a then PInf else NInf)"
| "np_div NaN y = NaN"
| "np_div x NaN = NaN"
| "np_div (Fin a) y = Fin 0"
| "np_div x (Fin b) = (if np_negative x = (b < 0) then PInf else NInf)"
| "np_div x y = NaN"

fun np_abs :: "npfloat \<Rightarrow> npfloat" where
  "np_abs (Fin a) = Fin \<bar>a\<bar>"
| "np_abs NaN = NaN"
| "np_abs x = PInf"

fun np_sqrt :: "npfloat \<Rightarrow> npfloat" where
  "np_sqrt (Fin a) = (if a < 0 then NaN else Fin (sqrt a))"
| "np_sqrt PInf = PInf"
| "np_sqrt x = NaN"

definition np_square :: "npfloat \<Rightarrow> npfloat" where
  "np_square x = np_mul x x"

fun np_lt :: "npfloat \<Rightarrow> npfloat \<Rightarrow> bool" where
  "np_lt (Fin a) (Fin b) = (a < b)"
| "np_lt NaN y = False"
| "np_lt x NaN = False"
| "np_lt x NInf = False"
| "np_lt PInf y = False"
| "np_lt x y = True"

fun np_le :: "npfloat \<Rightarrow> npfloat \<Rightarrow> bool" where
  "np_le (Fin a) (Fin b) = (a \<le> b)"
| "np_le NaN y = False"
| "np_le x NaN = False"
| "np_le NInf y = True"
| "np_le x PInf = True"
| "np_le x y = False"

definition np_ge :: "npfloat \<Rightarrow> npfloat \<Rightarrow> bool" where
  "np_ge x y = np_le y x"

text \<open>\<open>np.sum\<close>, \<open>np.mean\<close> and \<open>np.max\<close> of a one-dimensional array.  In exact
  arithmetic the order of summation is immaterial.  The mean of an empty array is
  \<open>nan\<close>; the maximum of an empty array raises.\<close>

definition np_sum :: "npfloat list \<Rightarrow> npfloat" where
  "np_sum xs = foldr np_add xs (Fin 0)"

definition np_mean :: "npfloat list \<Rightarrow> npfloat" where
  "np_mean xs = np_div (np_sum xs) (Fin (real (length xs)))"

definition np_max2 :: "npfloat \<Rightarrow> npfloat \<Rightarrow> npfloat" where
  "np_max2 x y = (if x = NaN \<or> y = NaN then NaN else if np_lt x y then y else x)"

fun np_max :: "npfloat list \<Rightarrow> error + npfloat" where
  "np_max [] = Inl ValueError"
| "np_max (x # xs) = Inr (foldl np_max2 x xs)"

text \<open>An operand of an elementwise operation: a Python scalar or a one-dimensional
  array.  Two arrays combine when their lengths agree or one of them has length 1
  (numpy broadcasting); otherwise numpy raises \<open>ValueError\<close>.\<close>

datatype nd = Sc npfloat | Vec "npfloat list"

definition bcast :: "(npfloat \<Rightarrow> npfloat \<Rightarrow> npfloat) \<Rightarrow> npfloat list \<Rightarrow> npfloat list
    \<Rightarrow> error + npfloat list" where
  "bcast f xs ys =
     (if length xs = length ys then Inr (map2 f xs ys)
      else if length xs = 1 then Inr (map (f (hd xs)) ys)
      else if length ys = 1 then Inr (map (\<lambda>x. f x (hd ys)) xs)
      else Inl ValueError)"

fun vec_nd :: "(npfloat \<Rightarrow> npfloat \<Rightarrow> npfloat) \<Rightarrow> npfloat list \<Rightarrow> nd \<Rightarrow> error + npfloat list" where
  "vec_nd f xs (Sc b) = Inr (map (\<lambda>x. f x b) xs)"
| "vec_nd f xs (Vec ys) = bcast f xs ys"

fun nd_map :: "(npfloat \<Rightarrow> npfloat) \<Rightarrow> nd \<Rightarrow> nd" where
  "nd_map g (Sc a) = Sc (g a)"
| "nd_map g (Vec xs) = Vec (map g xs)"

section \<open>Caller-visible effects\<close>

text \<open>
  Arrays handed to the class by its caller are numpy objects passed by reference.
  The heap holds the contents of every array object, an address is an index into it,
  and a new array is allocated at the end.  Console output is the list of diagnostics
  printed so far.
\<close>

type_synonym addr = nat

datatype warning =
    Warn_image_data
  | Warn_sigma_background
  | Warn_exposure
  | Warn_sigma_b_f npfloat

record world =
  heap :: "npfloat list list"
  printed :: "warning list"

definition alloc :: "world \<Rightarrow> npfloat list \<Rightarrow> world \<times> addr" where
  "alloc w a = (w\<lparr>heap := heap w @ [a]\<rparr>, length (heap w))"

definition store :: "world \<Rightarrow> addr \<Rightarrow> npfloat list \<Rightarrow> world" where
  "store w p a = w\<lparr>heap := (heap w)[p := a]\<rparr>"

definition emit :: "world \<Rightarrow> warning \<Rightarrow> world" where
  "emit w x = w\<lparr>printed := printed w @ [x]\<rparr>"

section \<open>Noise model: \<open>Data.covariance_matrix\<close>\<close>

text \<open>
  The exposure \<open>f\<close> is a Python number or an array.  The data \<open>d\<close> is only read and
  is passed by its contents (\<open>d\<close> and \<open>f\<close> are taken to be distinct arrays); the
  array \<open>f\<close> is written in place, so it is passed by address.
\<close>

datatype exposure = ExpScalar npfloat | ExpMap addr

definition covariance_matrix :: "world \<Rightarrow> npfloat list \<Rightarrow> npfloat \<Rightarrow> exposure
    \<Rightarrow> world \<times> (error + npfloat list)" where
  "covariance_matrix w d sigma_b f =
     (let w1 = (case f of
                  ExpScalar x \<Rightarrow> w
                | ExpMap p \<Rightarrow>
                    let mean_exp_time = np_mean (heap w ! p);
                        floor_exp = np_div mean_exp_time (Fin 10)
                    in store w p (map (\<lambda>x. if np_lt x floor_exp then floor_exp else x)
                                     (heap w ! p)));
          f1 = (case f of
                  ExpScalar x \<Rightarrow> Sc (if np_le x (Fin 0) then Fin 1 else x)
                | ExpMap p \<Rightarrow> Vec (heap w1 ! p))
      in case (case f1 of Sc x \<Rightarrow> Inr x | Vec xs \<Rightarrow> np_max xs) of
           Inl e \<Rightarrow> (w1, Inl e)
         | Inr max_f \<Rightarrow>
             let w2 = (if np_lt (np_mul sigma_b max_f) (Fin 1)
                       then emit w1 (Warn_sigma_b_f (np_mul sigma_b max_f)) else w1);
                 d_pos = map (\<lambda>x. if np_ge x (Fin 0) then x else Fin 0) d
             in (w2, ebind (vec_nd np_div d_pos f1)
                       (\<lambda>q. Inr (map (\<lambda>x. np_add x (np_square sigma_b)) q))))"

section \<open>The \<open>Data\<close> object\<close>

text \<open>
  The attributes that \<open>Data.__init__\<close> sets, named as in the source with \<open>self_\<close>
  for the leading underscore.  \<open>self_nx\<close> and \<open>self_ny\<close> are the grid dimensions and
  \<open>self_deltaPix\<close> is the pixel size reported by the coordinate system
  (\<open>self._coords.pixel_size\<close>).
\<close>

record data_obj =
  self_subgrid_res :: nat
  self_lens_light_mask :: bool
  self_idex_mask :: "npfloat list"
  self_idex_mask_bool :: bool
  self_sigma_b :: npfloat
  self_exp_map :: exposure
  self_data :: "npfloat list"
  self_data_pure :: "npfloat list"
  self_C_D :: "npfloat list"
  self_nx :: nat
  self_ny :: nat
  self_mask :: "npfloat list"
  self_mask_pure :: "npfloat list"
  self_mask_lens_light :: "npfloat list"
  self_x_grid_all :: "npfloat list"
  self_y_grid_all :: "npfloat list"
  self_x_grid :: "npfloat list"
  self_y_grid :: "npfloat list"
  self_x_grid_sub :: "npfloat list"
  self_y_grid_sub :: "npfloat list"
  self_idex_mask_sub :: "npfloat list"
  self_psf_subgrid :: bool
  self_deltaPix :: npfloat

definition mask_prop :: "data_obj \<Rightarrow> npfloat list" where
  "mask_prop s = (if self_lens_light_mask s then self_mask_lens_light s else self_mask s)"

definition numData_evaluate :: "data_obj \<Rightarrow> npfloat" where
  "numData_evaluate s = np_sum (mask_prop s)"

section \<open>Fit statistics\<close>

text \<open>
  The model is a one-dimensional array; the error term is a number (default 0) or an
  array.  Each arithmetic operator is numpy's elementwise operation with broadcasting,
  evaluated in Python's order.
\<close>

definition reduced_residuals :: "data_obj \<Rightarrow> npfloat list \<Rightarrow> nd \<Rightarrow> error + npfloat list" where
  "reduced_residuals s model error_map =
     ebind (bcast np_sub model (self_data s)) (\<lambda>diff.
     ebind (vec_nd np_add (self_C_D s) (nd_map np_abs error_map)) (\<lambda>var.
     ebind (bcast np_div diff (map np_sqrt var)) (\<lambda>q.
     bcast np_mul q (mask_prop s))))"

definition log_likelihood :: "data_obj \<Rightarrow> npfloat list \<Rightarrow> nd \<Rightarrow> error + npfloat" where
  "log_likelihood s model model_error =
     ebind (bcast np_sub model (self_data s)) (\<lambda>diff.
     ebind (vec_nd np_add (self_C_D s) (nd_map np_abs model_error)) (\<lambda>var.
     ebind (bcast np_div (map np_square diff) var) (\<lambda>q.
     ebind (bcast np_mul q (mask_prop s)) (\<lambda>X2.
     Inr (np_div (np_neg (np_sum X2)) (Fin 2))))))"

definition reduced_chi2 :: "data_obj \<Rightarrow> npfloat list \<Rightarrow> nd \<Rightarrow> error + npfloat" where
  "reduced_chi2 s model error_map =
     ebind (bcast np_sub model (self_data s)) (\<lambda>diff.
     ebind (vec_nd np_add (self_C_D s) (nd_map np_abs error_map)) (\<lambda>var.
     ebind (bcast np_div (map np_square diff) var) (\<lambda>q.
     ebind (bcast np_mul q (mask_prop s)) (\<lambda>qm.
     Inr (np_sum (map (\<lambda>x. np_div x (np_sum (mask_prop s))) qm))))))"

section \<open>Masked grids\<close>

text \<open>
  A two-dimensional image is the list of its rows.  \<open>astrofunc.util\<close> is not part of
  the repository; its two reshaping helpers are modelled by their interface.
\<close>

type_synonym grid = "npfloat list list"

fun rows :: "nat \<Rightarrow> nat \<Rightarrow> 'a list \<Rightarrow> 'a list list" where
  "rows 0 w xs = []"
| "rows (Suc n) w xs = take w xs # rows n w (drop w xs)"

text \<open>Modelled from the spec: \<open>util.array2image(array, nx, ny)\<close>, the generic
  array-to-image reshaping helper: the array of length \<open>nx * ny\<close> becomes \<open>nx\<close> rows of
  \<open>ny\<close> entries in row-major order; any other length cannot be reshaped.\<close>

definition util_array2image :: "'a list \<Rightarrow> nat \<Rightarrow> nat \<Rightarrow> error + 'a list list" where
  "util_array2image array nx ny =
     (if length array = nx * ny then Inr (rows nx ny array) else Inl ValueError)"

text \<open>Modelled from the spec: \<open>util.image2array(image)\<close>, the inverse reshaping
  helper: the rows of the image laid end to end.\<close>

definition util_image2array :: "'a list list \<Rightarrow> 'a list" where
  "util_image2array img = concat img"

text \<open>\<open>np.repeat(a, k, axis=0)\<close>: every element of a one-dimensional array, or every
  row of an image, \<open>k\<close> times in place.\<close>

definition np_repeat :: "'a list \<Rightarrow> nat \<Rightarrow> 'a list" where
  "np_repeat a k = concat (map (replicate k) a)"

text \<open>\<open>a[m == 1]\<close>: the entries of \<open>a\<close> where the flag array \<open>m\<close> holds 1.  numpy
  raises \<open>IndexError\<close> when the two lengths differ.\<close>

definition bool_index :: "npfloat list \<Rightarrow> npfloat list \<Rightarrow> error + npfloat list" where
  "bool_index a m =
     (if length m \<noteq> length a then Inl IndexError
      else Inr (map fst (filter (\<lambda>(x, f). f = Fin 1) (zip a m))))"

fun put :: "'a list \<Rightarrow> bool list \<Rightarrow> 'a list \<Rightarrow> 'a list" where
  "put (g # gs) (b # bs) vs =
     (if b then (case vs of [] \<Rightarrow> g # put gs bs [] | v # vs' \<Rightarrow> v # put gs bs vs')
      else g # put gs bs vs)"
| "put gs bs vs = gs"

text \<open>\<open>g[m == 1] = a\<close>: the selected positions of \<open>g\<close> are overwritten, in order, with
  the entries of \<open>a\<close>, which must be as many as the selected positions, or one (it is
  then broadcast); numpy raises \<open>ValueError\<close> otherwise.\<close>

definition bool_assign :: "npfloat list \<Rightarrow> npfloat list \<Rightarrow> npfloat list \<Rightarrow> error + npfloat list" where
  "bool_assign g m a =
     (let n = length (filter (\<lambda>f. f = Fin 1) m) in
      if length m \<noteq> length g then Inl IndexError
      else if length a = n then Inr (put g (map (\<lambda>f. f = Fin 1) m) a)
      else if length a = 1 then Inr (put g (map (\<lambda>f. f = Fin 1) m) (replicate n (hd a)))
      else Inl ValueError)"

text \<open>\<open>g[m == c] = v\<close> for a number \<open>v\<close>.\<close>

definition bool_assign_scalar :: "npfloat list \<Rightarrow> npfloat list \<Rightarrow> npfloat \<Rightarrow> npfloat
    \<Rightarrow> error + npfloat list" where
  "bool_assign_scalar g m c v =
     (if length m \<noteq> length g then Inl IndexError
      else Inr (map2 (\<lambda>x f. if f = c then v else x) g m))"

definition subgrid_idex :: "npfloat list \<Rightarrow> nat \<Rightarrow> nat \<Rightarrow> nat \<Rightarrow> error + npfloat list" where
  "subgrid_idex idex_mask subgrid_res nx ny =
     ebind (util_array2image (np_repeat idex_mask subgrid_res) nx (ny * subgrid_res))
       (\<lambda>idex_sub. Inr (util_image2array (np_repeat idex_sub subgrid_res)))"

definition array2image :: "data_obj \<Rightarrow> npfloat list \<Rightarrow> nat \<Rightarrow> error + grid" where
  "array2image s array subrid_res =
     (let nx = self_nx s * subrid_res; ny = self_ny s * subrid_res in
      ebind (if self_idex_mask_bool s
             then bool_assign (replicate (nx * ny) (Fin 0))
                    (if subrid_res > 1 then self_idex_mask_sub s else self_idex_mask s) array
             else Inr array)
        (\<lambda>grid1d. util_array2image grid1d nx ny))"

definition image2array :: "data_obj \<Rightarrow> grid \<Rightarrow> error + npfloat list" where
  "image2array s img =
     (let array = util_image2array img in
      if self_idex_mask_bool s then bool_index array (self_idex_mask s) else Inr array)"

section \<open>PSF convolution and resampling\<close>

text \<open>
  A PSF specification is a Python dictionary (\<open>kwargs_psf\<close>).  Its values are strings,
  numbers, images, and whatever object holds a precomputed frequency-domain kernel.
  A dictionary is an association list; \<open>map_of\<close> looks a key up.
\<close>

datatype pyval =
    PStr string
  | PNum npfloat
  | PGrid grid
  | PDict "(string \<times> pyval) list"

type_synonym kwargs = "(string \<times> pyval) list"

text \<open>\<open>kwargs[key]\<close> raises \<open>KeyError\<close> for a missing key; \<open>obj[key]\<close> with a string
  key raises \<open>TypeError\<close> on a string or a number and \<open>IndexError\<close> on an array.\<close>

definition kw_getitem :: "kwargs \<Rightarrow> string \<Rightarrow> error + pyval" where
  "kw_getitem kw key = (case map_of kw key of None \<Rightarrow> Inl (KeyError key) | Some v \<Rightarrow> Inr v)"

fun py_getitem :: "pyval \<Rightarrow> string \<Rightarrow> error + pyval" where
  "py_getitem (PDict kw) key = kw_getitem kw key"
| "py_getitem (PGrid g) key = Inl IndexError"
| "py_getitem v key = Inl TypeError"

text \<open>\<open>v == 'text'\<close>: only a string equals a string; a dictionary never does.\<close>

definition py_eq_str :: "pyval \<Rightarrow> string \<Rightarrow> bool" where
  "py_eq_str v t = (v = PStr t)"

text \<open>\<open>**obj\<close> requires a mapping.\<close>

fun py_unpack :: "pyval \<Rightarrow> error + kwargs" where
  "py_unpack (PDict kw) = Inr kw"
| "py_unpack v = Inl TypeError"

text \<open>\<open>v / grid_scale\<close> for a number.\<close>

fun py_div_num :: "pyval \<Rightarrow> npfloat \<Rightarrow> error + npfloat" where
  "py_div_num (PNum x) y = Inr (np_div x y)"
| "py_div_num v y = Inl TypeError"

fun py_len :: "pyval \<Rightarrow> error + nat" where
  "py_len (PStr t) = Inr (length t)"
| "py_len (PGrid g) = Inr (length g)"
| "py_len (PDict kw) = Inr (length kw)"
| "py_len (PNum x) = Inl TypeError"

text \<open>
  The numerical routines of scipy and \<open>astrofunc\<close> that the class calls are parameters
  of the model: \<open>ndimage.filters.gaussian_filter(grid, sigma, mode='nearest', truncate)\<close>,
  \<open>fft.fftconvolve(grid, kernel, kernel_fft, mode='same')\<close>,
  \<open>signal.fftconvolve(grid, kernel, mode='same')\<close>,
  \<open>util.subgrid_kernel(kernel, subgrid_res, odd=True)\<close>, \<open>util.cut_psf(kernel, psf_size)\<close>,
  \<open>util.re_size(image, factor)\<close>, \<open>util.make_grid\<close> and \<open>util.make_subgrid\<close>.
  Each may fail.
\<close>

record ext =
  gaussian_filter :: "grid \<Rightarrow> npfloat \<Rightarrow> npfloat \<Rightarrow> error + grid"
  fft_fftconvolve :: "grid \<Rightarrow> pyval \<Rightarrow> pyval \<Rightarrow> error + grid"
  signal_fftconvolve :: "grid \<Rightarrow> pyval \<Rightarrow> error + grid"
  util_subgrid_kernel :: "pyval \<Rightarrow> nat \<Rightarrow> error + pyval"
  util_cut_psf :: "pyval \<Rightarrow> int \<Rightarrow> error + pyval"
  util_re_size :: "grid \<Rightarrow> nat \<Rightarrow> error + grid"
  util_make_grid :: "npfloat \<Rightarrow> error + (npfloat list \<times> npfloat list)"
  util_make_subgrid :: "npfloat list \<Rightarrow> npfloat list \<Rightarrow> nat
      \<Rightarrow> error + (npfloat list \<times> npfloat list)"

text \<open>\<open>try: a except: b\<close> with a bare \<open>except\<close>: every failure of \<open>a\<close> is caught.\<close>

definition try_except :: "error + 'a \<Rightarrow> error + 'a \<Rightarrow> error + 'a" where
  "try_except a b = (case a of Inl e \<Rightarrow> b | Inr x \<Rightarrow> Inr x)"

definition psf_convolution :: "ext \<Rightarrow> data_obj \<Rightarrow> grid \<Rightarrow> npfloat \<Rightarrow> kwargs \<Rightarrow> error + grid" where
  "psf_convolution U s grid grid_scale kw =
     (let psf_type = (case map_of kw ''psf_type'' of None \<Rightarrow> PStr ''NONE'' | Some v \<Rightarrow> v) in
      if py_eq_str psf_type ''NONE'' then Inr grid
      else if py_eq_str psf_type ''gaussian'' then
        ebind (kw_getitem kw ''sigma'') (\<lambda>sg.
        ebind (py_div_num sg grid_scale) (\<lambda>sigma.
        ebind (if map_of kw ''truncate'' \<noteq> None
               then ebind (kw_getitem kw ''truncate'') (\<lambda>t. py_div_num t grid_scale)
               else Inr (np_div (Fin 3) grid_scale)) (\<lambda>sigma_truncate.
        gaussian_filter U grid sigma (np_mul sigma_truncate sigma))))
      else if py_eq_str psf_type ''pixel'' then
        ebind (if self_psf_subgrid s then
                 ebind (kw_getitem kw ''kernel_pixel'') (\<lambda>kp.
                 ebind (py_len kp) (\<lambda>n.
                 ebind (kw_getitem kw ''kernel_point_source'') (\<lambda>kps.
                 ebind (util_subgrid_kernel U kps (self_subgrid_res s)) (\<lambda>kernel.
                 let n_new = int (n * self_subgrid_res s);
                     n_new = (if n_new mod 2 = 0 then n_new - 1 else n_new)
                 in util_cut_psf U kernel n_new))))
               else kw_getitem kw ''kernel_pixel'') (\<lambda>kernel.
        if map_of kw ''kernel_fft'' \<noteq> None then
          ebind (kw_getitem kw ''kernel_pixel_fft'') (\<lambda>kernel_fft.
          try_except (fft_fftconvolve U grid kernel kernel_fft)
                     (signal_fftconvolve U grid kernel))
        else signal_fftconvolve U grid kernel)
      else Inl ValueError)"

definition re_size_convolve :: "ext \<Rightarrow> data_obj \<Rightarrow> npfloat list \<Rightarrow> pyval \<Rightarrow> bool
    \<Rightarrow> error + npfloat list" where
  "re_size_convolve U s image_in kwargs_psf unconvolved =
     ebind (array2image s image_in (self_subgrid_res s)) (\<lambda>img.
     ebind (if unconvolved then Inr True
            else ebind (py_getitem kwargs_psf ''psf_type'') (\<lambda>t. Inr (py_eq_str t ''NONE'')))
       (\<lambda>skip.
     ebind (if skip then util_re_size U img (self_subgrid_res s)
            else
              let gridScale = np_div (self_deltaPix s) (Fin (real (self_subgrid_res s))) in
              if py_eq_str kwargs_psf ''pixel'' \<and> \<not> self_psf_subgrid s then
                ebind (util_re_size U img (self_subgrid_res s)) (\<lambda>grid_re_sized.
                ebind (py_unpack kwargs_psf) (\<lambda>kw.
                psf_convolution U s grid_re_sized gridScale kw))
              else
                ebind (py_unpack kwargs_psf) (\<lambda>kw.
                ebind (psf_convolution U s img gridScale kw) (\<lambda>grid_conv.
                util_re_size U grid_conv (self_subgrid_res s))))
       (image2array s)))"

section \<open>Construction: \<open>Data.__init__\<close>\<close>

text \<open>
  The configuration bundle \<open>kwargs_data\<close>.  An absent key is \<open>None\<close>.  Arrays are
  given by address, since the constructor keeps references to them and writes into some
  of them.  The three keys of the coordinate system are reduced to the 2 x 2 matrix
  \<open>transform_pix2angle\<close>, given by its rows.
\<close>

record kwargs_data =
  kw_image_data :: "addr option"
  kw_idex_mask :: "addr option"
  kw_sigma_background :: "npfloat option"
  kw_exposure_map :: "addr option"
  kw_exp_time :: "npfloat option"
  kw_numPix_xy :: "(nat \<times> nat) option"
  kw_mask :: "addr option"
  kw_mask_lens_light :: "addr option"
  kw_x_coords :: "addr option"
  kw_y_coords :: "addr option"
  kw_transform_pix2angle :: "((real \<times> real) \<times> (real \<times> real)) option"

text \<open>Sequencing of steps that may raise and may write to the heap: after a failure
  the heap stays as the failing step left it.\<close>

definition wbind :: "world \<times> (error + 'a) \<Rightarrow> (world \<Rightarrow> 'a \<Rightarrow> world \<times> (error + 'b))
    \<Rightarrow> world \<times> (error + 'b)" where
  "wbind m f = (case m of (w, Inl e) \<Rightarrow> (w, Inl e) | (w, Inr x) \<Rightarrow> f w x)"

text \<open>Modelled from the spec: \<open>Coordinates(transform_pix2angle, ...).pixel_size\<close> of
  \<open>lenstronomy.Data.coord_transforms\<close>, which is not among the sources: the pixel scale
  is the square root of the absolute determinant of the transform, and a singular
  transform is rejected.\<close>

definition coords_pixel_size :: "((real \<times> real) \<times> (real \<times> real)) \<Rightarrow> error + npfloat" where
  "coords_pixel_size M =
     (case M of ((a, b), (c, d)) \<Rightarrow>
        if a * d - b * c = 0 then Inl ValueError else Inr (Fin (sqrt \<bar>a * d - b * c\<bar>)))"

text \<open>\<open>np.sqrt(len(data))\<close> as a grid dimension: a natural number when the length is a
  perfect square, and not an integer otherwise.  The source keeps the value as a float;
  the model keeps the natural number it denotes.\<close>

definition nat_sqrt :: "nat \<Rightarrow> nat option" where
  "nat_sqrt n = find (\<lambda>r. r * r = n) [0..<Suc n]"

text \<open>Lines 19 to 29: the image and the index mask.  Defaults are new arrays.\<close>

definition init_arrays :: "world \<Rightarrow> kwargs_data \<Rightarrow> world \<times> addr \<times> addr \<times> bool" where
  "init_arrays w kd =
     (let (w1, data) = (case kw_image_data kd of
                          Some p \<Rightarrow> (w, p)
                        | None \<Rightarrow> alloc (emit w Warn_image_data) (replicate 16 (Fin 1)));
          (w2, idex_mask, idex_mask_bool) =
             (case kw_idex_mask kd of
                Some p \<Rightarrow> (w1, p, True)
              | None \<Rightarrow> (let (w', p) = alloc w1 (map (\<lambda>x. Fin 1) (heap w1 ! data))
                         in (w', p, False)))
      in (w2, data, idex_mask, idex_mask_bool))"

text \<open>Lines 30 to 34.\<close>

definition init_sigma_b :: "world \<Rightarrow> kwargs_data \<Rightarrow> world \<times> npfloat" where
  "init_sigma_b w kd =
     (case kw_sigma_background kd of
        Some x \<Rightarrow> (w, x)
      | None \<Rightarrow> (emit w Warn_sigma_background, Fin 1))"

text \<open>Lines 35 to 44: the exposure.  \<open>exp_map[exp_map <= 0] = 10**(-3)\<close> writes into
  the caller's array; \<open>exp_map[self._idex_mask == 1]\<close> is a new array.\<close>

definition init_exposure :: "world \<Rightarrow> kwargs_data \<Rightarrow> addr \<Rightarrow> world \<times> (error + exposure)" where
  "init_exposure w kd idex_mask =
     (case kw_exposure_map kd of
        Some exp_map \<Rightarrow>
          (let w1 = store w exp_map
                      (map (\<lambda>x. if np_le x (Fin 0) then Fin (1 / 1000) else x) (heap w ! exp_map))
           in case bool_index (heap w1 ! exp_map) (heap w1 ! idex_mask) of
                Inl e \<Rightarrow> (w1, Inl e)
              | Inr f \<Rightarrow> (let (w2, p) = alloc w1 f in (w2, Inr (ExpMap p))))
      | None \<Rightarrow>
          (case kw_exp_time kd of
             Some t \<Rightarrow> (w, Inr (ExpScalar t))
           | None \<Rightarrow> (emit w Warn_exposure, Inr (ExpScalar (Fin 1)))))"

text \<open>Lines 54 to 61: the fit mask.  \<open>self._mask_pure\<close> is the caller's array itself,
  and \<open>self._mask_pure[self._idex_mask == 0] = 0\<close> writes into it.  The result is the
  active mask and the contents of \<open>self._mask_pure\<close>.\<close>

definition init_mask :: "world \<Rightarrow> kwargs_data \<Rightarrow> addr \<Rightarrow> addr \<Rightarrow> npfloat list
    \<Rightarrow> world \<times> (error + npfloat list \<times> npfloat list)" where
  "init_mask w kd data idex_mask data_active =
     (case kw_mask kd of
        Some m \<Rightarrow>
          (case bool_index (heap w ! m) (heap w ! idex_mask) of
             Inl e \<Rightarrow> (w, Inl e)
           | Inr mask_active \<Rightarrow>
               (case bool_assign_scalar (heap w ! m) (heap w ! idex_mask) (Fin 0) (Fin 0) of
                  Inl e \<Rightarrow> (w, Inl e)
                | Inr mask_pure \<Rightarrow> (store w m mask_pure, Inr (mask_active, mask_pure))))
      | None \<Rightarrow>
          (w, ebind (bool_assign_scalar (map (\<lambda>x. Fin 1) (heap w ! data)) (heap w ! idex_mask)
                       (Fin 0) (Fin 0))
                (\<lambda>mask_pure. Inr (map (\<lambda>x. Fin 1) data_active, mask_pure))))"

text \<open>Lines 62 to 79: the lens-light mask, the coordinate grids, the subgrid mask and
  the coordinate system.  Nothing is written here; the arrays are read from the heap.
  \<open>dims\<close> is \<open>None\<close> when the default dimensions are not integers, and then no array can
  be reshaped to them.\<close>

definition init_grids :: "ext \<Rightarrow> world \<Rightarrow> kwargs_data \<Rightarrow> nat \<Rightarrow> addr \<Rightarrow> addr \<Rightarrow> npfloat list
    \<Rightarrow> (nat \<times> nat) option
    \<Rightarrow> error + (npfloat list \<times> (npfloat list \<times> npfloat list) \<times> (npfloat list \<times> npfloat list)
               \<times> (npfloat list \<times> npfloat list) \<times> npfloat list \<times> npfloat)" where
  "init_grids U w kd subgrid_res data idex_mask data_active dims =
     ebind (case kw_mask_lens_light kd of
              Some ml \<Rightarrow> bool_index (heap w ! ml) (heap w ! idex_mask)
            | None \<Rightarrow> Inr (map (\<lambda>x. Fin 1) data_active)) (\<lambda>mask_lens_light.
     ebind (case (kw_x_coords kd, kw_y_coords kd) of
              (Some x, Some y) \<Rightarrow> Inr (heap w ! x, heap w ! y)
            | _ \<Rightarrow> util_make_grid U
                     (Fin (sqrt (real (case dims of Some (nx, ny) \<Rightarrow> nx * ny
                                       | None \<Rightarrow> length (heap w ! data)))))) (\<lambda>(x_grid, y_grid).
     ebind (bool_index x_grid (heap w ! idex_mask)) (\<lambda>x_active.
     ebind (bool_index y_grid (heap w ! idex_mask)) (\<lambda>y_active.
     ebind (util_make_subgrid U x_grid y_grid subgrid_res) (\<lambda>(x_grid_sub, y_grid_sub).
     ebind (case dims of
              Some (nx, ny) \<Rightarrow> subgrid_idex (heap w ! idex_mask) subgrid_res nx ny
            | None \<Rightarrow> Inl ValueError) (\<lambda>idex_mask_sub.
     ebind (bool_index x_grid_sub idex_mask_sub) (\<lambda>x_sub.
     ebind (bool_index y_grid_sub idex_mask_sub) (\<lambda>y_sub.
     ebind (coords_pixel_size (case kw_transform_pix2angle kd of
                                 Some M \<Rightarrow> M | None \<Rightarrow> ((1, 0), (0, 1)))) (\<lambda>pixel_size.
     Inr (mask_lens_light, (x_grid, y_grid), (x_active, y_active), (x_sub, y_sub),
          idex_mask_sub, pixel_size))))))))))"

text \<open>Lines 45 to 79, after the exposure has been set.  The attributes that are
  references to caller arrays (\<open>_idex_mask\<close>, \<open>_data_pure\<close>, \<open>_mask_pure\<close>) are
  recorded with the contents those arrays have when construction ends.\<close>

definition init_tail :: "ext \<Rightarrow> kwargs_data \<Rightarrow> nat \<Rightarrow> bool \<Rightarrow> bool \<Rightarrow> addr \<Rightarrow> addr \<Rightarrow> bool
    \<Rightarrow> npfloat \<Rightarrow> world \<Rightarrow> exposure \<Rightarrow> world \<times> (error + data_obj)" where
  "init_tail U kd subgrid_res psf_subgrid lens_light_mask data idex_mask idex_mask_bool sigma_b
       w3 exp_map =
     wbind (w3, bool_index (heap w3 ! data) (heap w3 ! idex_mask)) (\<lambda>w4 data_active.
     wbind (covariance_matrix w4 data_active sigma_b exp_map) (\<lambda>w5 C_D.
     let dims = (case kw_numPix_xy kd of
                   Some (nx, ny) \<Rightarrow> Some (nx, ny)
                 | None \<Rightarrow> map_option (\<lambda>r. (r, r)) (nat_sqrt (length (heap w5 ! data))))
     in
     wbind (init_mask w5 kd data idex_mask data_active) (\<lambda>w6 (mask_active, mask_pure).
     wbind (w6, init_grids U w6 kd subgrid_res data idex_mask data_active dims)
       (\<lambda>w7 (mask_lens_light, (x_grid_all, y_grid_all), (x_grid, y_grid),
              (x_grid_sub, y_grid_sub), idex_mask_sub, pixel_size).
     (w7, Inr \<lparr>self_subgrid_res = subgrid_res,
              self_lens_light_mask = lens_light_mask,
              self_idex_mask = heap w7 ! idex_mask,
              self_idex_mask_bool = idex_mask_bool,
              self_sigma_b = sigma_b,
              self_exp_map = exp_map,
              self_data = data_active,
              self_data_pure = heap w7 ! data,
              self_C_D = C_D,
              self_nx = fst (the dims),
              self_ny = snd (the dims),
              self_mask = mask_active,
              self_mask_pure = mask_pure,
              self_mask_lens_light = mask_lens_light,
              self_x_grid_all = x_grid_all,
              self_y_grid_all = y_grid_all,
              self_x_grid = x_grid,
              self_y_grid = y_grid,
              self_x_grid_sub = x_grid_sub,
              self_y_grid_sub = y_grid_sub,
              self_idex_mask_sub = idex_mask_sub,
              self_psf_subgrid = psf_subgrid,
              self_deltaPix = pixel_size\<rparr>)))))"

text \<open>\<open>Data(kwargs_data, subgrid_res, psf_subgrid, lens_light_mask)\<close>.\<close>

definition Data_init :: "ext \<Rightarrow> world \<Rightarrow> kwargs_data \<Rightarrow> nat \<Rightarrow> bool \<Rightarrow> bool
    \<Rightarrow> world \<times> (error + data_obj)" where
  "Data_init U w kd subgrid_res psf_subgrid lens_light_mask =
     (let (w1, data, idex_mask, idex_mask_bool) = init_arrays w kd;
          (w2, sigma_b) = init_sigma_b w1 kd
      in wbind (init_exposure w2 kd idex_mask)
           (init_tail U kd subgrid_res psf_subgrid lens_light_mask data idex_mask
              idex_mask_bool sigma_b))"

section \<open>Frames\<close>

text \<open>\<open>heap_frame n A w w'\<close>: from \<open>w\<close> to \<open>w'\<close> no array is lost, and the arrays at the
  addresses below \<open>n\<close> outside \<open>A\<close> have kept their contents.\<close>

definition heap_frame :: "nat \<Rightarrow> addr set \<Rightarrow> world \<Rightarrow> world \<Rightarrow> bool" where
  "heap_frame n A w w' =
     (length (heap w) \<le> length (heap w')
      \<and> (\<forall>q<n. q \<notin> A \<longrightarrow> heap w' ! q = heap w ! q))"

text \<open>A flat image with every entry outside the flag array set to zero.\<close>

definition masked :: "npfloat list \<Rightarrow> npfloat list \<Rightarrow> npfloat list" where
  "masked xs m = map2 (\<lambda>x f. if f = Fin 1 then x else Fin 0) xs m"

text \<open>An object as the constructor leaves it for an all-valid grid of one column, with
  the given active data, variance and fit mask and every other attribute at its
  default.\<close>

definition fit_state :: "npfloat list \<Rightarrow> npfloat list \<Rightarrow> npfloat list \<Rightarrow> data_obj" where
  "fit_state d c m =
     \<lparr>self_subgrid_res = 1, self_lens_light_mask = False,
      self_idex_mask = map (\<lambda>x. Fin 1) d, self_idex_mask_bool = False,
      self_sigma_b = Fin 1, self_exp_map = ExpScalar (Fin 1),
      self_data = d, self_data_pure = d, self_C_D = c,
      self_nx = length d, self_ny = 1,
      self_mask = m, self_mask_pure = m, self_mask_lens_light = map (\<lambda>x. Fin 1) d,
      self_x_grid_all = [], self_y_grid_all = [], self_x_grid = [], self_y_grid = [],
      self_x_grid_sub = [], self_y_grid_sub = [],
      self_idex_mask_sub = map (\<lambda>x. Fin 1) d,
      self_psf_subgrid = False, self_deltaPix = Fin 1\<rparr>"

text \<open>A concrete construction: a 1 x 2 image with its second pixel invalid, an exposure
  map with a zero entry, an all-ones fit mask and explicit coordinates.  The stand-ins
  for the numerical routines leave their image argument as it is.\<close>

definition demo_ext :: ext where
  "demo_ext =
     \<lparr>gaussian_filter = (\<lambda>g sigma t. Inr g),
      fft_fftconvolve = (\<lambda>g k f. Inr g),
      signal_fftconvolve = (\<lambda>g k. Inr g),
      util_subgrid_kernel = (\<lambda>k n. Inr k),
      util_cut_psf = (\<lambda>k n. Inr k),
      util_re_size = (\<lambda>g n. Inr g),
      util_make_grid = (\<lambda>n. Inl ValueError),
      util_make_subgrid = (\<lambda>x y k. Inr (x, y))\<rparr>"

definition demo_world :: world where
  "demo_world =
     \<lparr>heap = [[Fin 3, Fin 4], [Fin 1, Fin 0], [Fin 0, Fin 2], [Fin 1, Fin 1],
              [Fin 0, Fin 1], [Fin 0, Fin 0]],
      printed = []\<rparr>"

definition demo_kwargs :: kwargs_data where
  "demo_kwargs =
     \<lparr>kw_image_data = Some 0, kw_idex_mask = Some 1, kw_sigma_background = Some (Fin 1),
      kw_exposure_map = Some 2, kw_exp_time = None, kw_numPix_xy = Some (1, 2),
      kw_mask = Some 3, kw_mask_lens_light = None, kw_x_coords = Some 4, kw_y_coords = Some 5,
      kw_transform_pix2angle = None\<rparr>"

section \<open>Arithmetic and broadcasting lemmas\<close>

lemma np_sum_Nil: "np_sum [] = Fin 0"
  by (simp add: np_sum_def)

lemma np_sum_Cons: "np_sum (x # xs) = np_add x (np_sum xs)"
  by (simp add: np_sum_def)

lemma np_sum_all_zero: "\<forall>x\<in>set xs. x = Fin 0 \<Longrightarrow> np_sum xs = Fin 0"
  by (induction xs) (simp_all add: np_sum_Nil np_sum_Cons)

lemma np_sum_fin: "\<forall>x\<in>set xs. is_fin x \<Longrightarrow> \<exists>r. np_sum xs = Fin r"
proof (induction xs)
  case Nil
  then show ?case by (simp add: np_sum_Nil)
next
  case (Cons a xs)
  then obtain r where "np_sum xs = Fin r" by auto
  moreover obtain b where "a = Fin b" using Cons.prems by (cases a) auto
  ultimately show ?case by (simp add: np_sum_Cons)
qed

lemma map2_all:
  assumes "\<forall>x\<in>set xs. A x" "\<forall>y\<in>set ys. B y" "\<And>x y. A x \<Longrightarrow> B y \<Longrightarrow> C (f x y)"
  shows "\<forall>z\<in>set (map2 f xs ys). C z"
proof
  fix z assume "z \<in> set (map2 f xs ys)"
  then obtain x y where "(x, y) \<in> set (zip xs ys)" "z = f x y" by auto
  then show "C z" using assms by (meson set_zip_leftD set_zip_rightD)
qed

lemma sub_self_zero: "\<forall>x\<in>set d. is_fin x \<Longrightarrow> \<forall>z\<in>set (map2 np_sub d d). z = Fin 0"
proof
  fix z assume a: "\<forall>x\<in>set d. is_fin x" "z \<in> set (map2 np_sub d d)"
  then obtain x where x: "x \<in> set d" "z = np_sub x x" by (auto simp: zip_same_conv_map)
  then have "is_fin x" using a(1) by blast
  then show "z = Fin 0" using x(2) by (cases x) (simp_all add: np_sub_def)
qed

lemma zero_over_pos: "np_lt (Fin 0) c \<Longrightarrow> np_div (Fin 0) (np_add c (Fin 0)) = Fin 0"
  by (cases c) auto

lemma zero_times_fin: "is_fin m \<Longrightarrow> np_mul (Fin 0) m = Fin 0"
  by (cases m) auto


lemma bcast_length:
  "bcast f xs ys = Inr zs \<Longrightarrow> length zs = (if length xs = 1 then length ys else length xs)"
  by (auto simp: bcast_def split: if_splits)

lemma bcast_same: "length xs = length ys \<Longrightarrow> bcast f xs ys = Inr (map2 f xs ys)"
  by (simp add: bcast_def)

lemma bcast_mismatch:
  "length xs \<noteq> length ys \<Longrightarrow> length xs \<noteq> 1 \<Longrightarrow> length ys \<noteq> 1 \<Longrightarrow> bcast f xs ys = Inl ValueError"
  by (simp add: bcast_def)

lemma bcast_left1:
  "length xs = 1 \<Longrightarrow> \<exists>zs. bcast f xs ys = Inr zs \<and> length zs = length ys"
  by (auto simp: bcast_def)

lemma bcast_right1:
  "length ys = 1 \<Longrightarrow> \<exists>zs. bcast f xs ys = Inr zs \<and> length zs = length xs"
  by (auto simp: bcast_def)

lemma vec_nd_wf:
  assumes "case e of Sc x \<Rightarrow> True | Vec v \<Rightarrow> length v = length xs"
  shows "\<exists>zs. vec_nd f xs (nd_map g e) = Inr zs \<and> length zs = length xs"
  using assms by (cases e) (auto simp: bcast_def)


section \<open>Reshaping and masking lemmas\<close>

lemma concat_rows: "length xs = n * w \<Longrightarrow> concat (rows n w xs) = xs"
proof (induction n arbitrary: xs)
  case 0
  then show ?case by simp
next
  case (Suc n)
  then have "length (drop w xs) = n * w" by simp
  then show ?case using Suc.IH by simp
qed

lemma length_rows: "length (rows n w xs) = n"
  by (induction n arbitrary: xs) simp_all

lemma rows_nth: "i < n \<Longrightarrow> rows n w xs ! i = take w (drop (i * w) xs)"
proof (induction n arbitrary: xs i)
  case 0
  then show ?case by simp
next
  case (Suc n)
  show ?case
  proof (cases i)
    case 0
    then show ?thesis by simp
  next
    case (Suc j)
    then have "j < n" using Suc.prems by simp
    then show ?thesis using Suc.IH[of j "drop w xs"] Suc by (simp add: add.commute)
  qed
qed

lemma concat_uniform_length:
  "\<forall>r\<in>set rs. length r = w \<Longrightarrow> length (concat rs) = length rs * w"
  by (induction rs) simp_all

lemma concat_uniform_nth:
  "\<forall>r\<in>set rs. length r = w \<Longrightarrow> i < length rs \<Longrightarrow> j < w \<Longrightarrow> concat rs ! (i * w + j) = rs ! i ! j"
proof (induction rs arbitrary: i)
  case Nil
  then show ?case by simp
next
  case (Cons r rs)
  show ?case
  proof (cases i)
    case 0
    then show ?thesis using Cons.prems by (simp add: nth_append)
  next
    case (Suc k)
    then have "concat rs ! (k * w + j) = rs ! k ! j" using Cons by simp
    moreover have "length r = w" using Cons.prems by simp
    ultimately show ?thesis using Suc by (simp add: nth_append)
  qed
qed

lemma length_np_repeat: "length (np_repeat a k) = length a * k"
  using concat_uniform_length[of "map (replicate k) a" k] by (simp add: np_repeat_def)

lemma np_repeat_nth: "i < length a \<Longrightarrow> b < k \<Longrightarrow> np_repeat a k ! (i * k + b) = a ! i"
proof -
  assume a: "i < length a" "b < k"
  have "concat (map (replicate k) a) ! (i * k + b) = map (replicate k) a ! i ! b"
    by (rule concat_uniform_nth) (use a in auto)
  then show ?thesis using a by (simp add: np_repeat_def)
qed

lemma np_repeat_one: "np_repeat a 1 = a"
  by (induction a) (simp_all add: np_repeat_def)

lemma filter_put:
  "length g = length bs \<Longrightarrow> length vs = length (filter id bs)
   \<Longrightarrow> map fst (filter snd (zip (put g bs vs) bs)) = vs"
  by (induction g bs vs rule: put.induct) (auto split: list.splits)

lemma length_put: "length (put g bs vs) = length g"
  by (induction g bs vs rule: put.induct) (auto split: list.splits)

lemma bool_index_length:
  "length m = length a \<Longrightarrow> \<exists>v. bool_index a m = Inr v \<and> length v = length (filter (\<lambda>f. f = Fin 1) m)"
proof -
  assume "length m = length a"
  then have "length (filter (\<lambda>(x, f). f = Fin 1) (zip a m)) = length (filter (\<lambda>f. f = Fin 1) m)"
  proof (induction a m rule: list_induct2')
    case (4 x xs y ys)
    then show ?case by simp
  qed simp_all
  then show ?thesis using \<open>length m = length a\<close> by (simp add: bool_index_def)
qed

lemma index_assign_roundtrip:
  assumes "length m = length g" "length a = length (filter (\<lambda>f. f = Fin 1) m)"
  shows "ebind (bool_assign g m a) (\<lambda>g'. bool_index g' m) = Inr a"
proof -
  let ?bs = "map (\<lambda>f. f = Fin 1) m"
  have fl: "length (filter id ?bs) = length a"
    using assms(2) by (simp add: filter_map o_def)
  have "map fst (filter snd (zip (put g ?bs a) ?bs)) = a"
    by (rule filter_put) (use assms(1) fl in simp_all)
  moreover have "filter (\<lambda>(x, f). f = Fin 1) (zip (put g ?bs a) m)
      = map (\<lambda>(x, f). (x, f)) (filter (\<lambda>(x, f). f = Fin 1) (zip (put g ?bs a) m))"
    by simp
  moreover have "map fst (filter snd (zip xs (map (\<lambda>f. f = Fin 1) m)))
      = map fst (filter (\<lambda>(x, f). f = Fin 1) (zip xs m))" for xs :: "npfloat list"
    by (induction xs m rule: list_induct2') simp_all
  ultimately have "map fst (filter (\<lambda>(x, f). f = Fin 1) (zip (put g ?bs a) m)) = a"
    by simp
  then show ?thesis
    using assms by (simp add: bool_assign_def bool_index_def ebind_def length_put Let_def)
qed

lemma rows_concat:
  "\<forall>r\<in>set img. length r = w \<Longrightarrow> rows (length img) w (concat img) = img"
  by (induction img) simp_all

lemma put_zeros:
  "length xs = length m
   \<Longrightarrow> put (replicate (length xs) (Fin 0)) (map (\<lambda>f. f = Fin 1) m)
         (map fst (filter (\<lambda>(x, f). f = Fin 1) (zip xs m))) = masked xs m"
  unfolding masked_def by (induction xs m rule: list_induct2) simp_all

lemma assign_index:
  assumes "length m = length xs"
  shows "ebind (bool_index xs m) (\<lambda>a. bool_assign (replicate (length xs) (Fin 0)) m a)
         = Inr (masked xs m)"
proof -
  let ?a = "map fst (filter (\<lambda>(x, f). f = Fin 1) (zip xs m))"
  have la: "length ?a = length (filter (\<lambda>f. f = Fin 1) m)"
    using bool_index_length[OF assms] by (simp add: bool_index_def assms)
  show ?thesis
    using assms la put_zeros[of xs m]
    by (simp add: bool_index_def bool_assign_def ebind_def Let_def)
qed

lemma idx_bound: "i < n \<Longrightarrow> a < k \<Longrightarrow> i * k + a < n * (k::nat)"
proof -
  assume "i < n" "a < k"
  then have "i * k + a < Suc i * k" by simp
  also have "\<dots> \<le> n * k" using \<open>i < n\<close> by (intro mult_le_mono1) simp
  finally show ?thesis .
qed

lemma rows_uniform: "length xs = n * w \<Longrightarrow> \<forall>r\<in>set (rows n w xs). length r = w"
proof (induction n arbitrary: xs)
  case 0
  then show ?case by simp
next
  case (Suc n)
  then have "length (drop w xs) = n * w" by simp
  then have "\<forall>r\<in>set (rows n w (drop w xs)). length r = w" by (rule Suc.IH)
  moreover have "length (take w xs) = w" using Suc.prems by simp
  ultimately show ?case by simp
qed

lemma np_repeat_uniform: "\<forall>r\<in>set rs. length r = w \<Longrightarrow> \<forall>r\<in>set (np_repeat rs k). length r = w"
  by (auto simp: np_repeat_def)

lemma subgrid_idex_value:
  assumes "length idex_mask = nx * ny"
  shows "subgrid_idex idex_mask k nx ny
         = Inr (concat (np_repeat (rows nx (ny * k) (np_repeat idex_mask k)) k))"
  using assms
  by (simp add: subgrid_idex_def util_array2image_def util_image2array_def ebind_def
      length_np_repeat)

lemma subgrid_footprint:
  assumes len: "length idex_mask = nx * ny"
    and b: "i < nx" "j < ny" "a < k" "b < k"
  shows "concat (np_repeat (rows nx (ny * k) (np_repeat idex_mask k)) k)
           ! ((i * k + a) * (ny * k) + (j * k + b)) = idex_mask ! (i * ny + j)"
proof -
  let ?M = "np_repeat idex_mask k"
  let ?R = "rows nx (ny * k) ?M"
  have lM: "length ?M = nx * (ny * k)" using len by (simp add: length_np_repeat)
  have uR: "\<forall>r\<in>set ?R. length r = ny * k" by (rule rows_uniform[OF lM])
  have uRR: "\<forall>r\<in>set (np_repeat ?R k). length r = ny * k" by (rule np_repeat_uniform[OF uR])
  have ia: "i * k + a < length (np_repeat ?R k)"
    using idx_bound[OF b(1) b(3)] by (simp add: length_np_repeat length_rows)
  have jb: "j * k + b < ny * k" by (rule idx_bound[OF b(2) b(4)])
  have ij: "i * ny + j < length idex_mask" using idx_bound[OF b(1) b(2)] len by simp
  have "concat (np_repeat ?R k) ! ((i * k + a) * (ny * k) + (j * k + b))
      = np_repeat ?R k ! (i * k + a) ! (j * k + b)"
    by (rule concat_uniform_nth[OF uRR ia jb])
  also have "\<dots> = ?R ! i ! (j * k + b)"
    using b by (simp add: np_repeat_nth length_rows)
  also have "\<dots> = take (ny * k) (drop (i * (ny * k)) ?M) ! (j * k + b)"
    using b(1) by (simp add: rows_nth)
  also have "\<dots> = ?M ! (i * (ny * k) + (j * k + b))"
  proof -
    have "i * (ny * k) \<le> length ?M" using lM b(1) by simp
    then show ?thesis using jb by simp
  qed
  also have "i * (ny * k) + (j * k + b) = (i * ny + j) * k + b"
    by (simp add: algebra_simps)
  also have "?M ! ((i * ny + j) * k + b) = idex_mask ! (i * ny + j)"
    by (rule np_repeat_nth[OF ij b(4)])
  finally show ?thesis .
qed


section \<open>Properties of the noise model\<close>














text \<open>
  C2.  The diagnostic of \<open>covariance_matrix\<close> is guarded by
  \<open>sigma_b * max(f) < 1\<close>, although its own text describes the regime \<open>> 1\<close>.
  With background 2 and exposure 1 the product is 2 and nothing is printed; with
  background 1/2 the product is 1/2 and the diagnostic is printed.  The variance is
  returned in both cases.
\<close>

theorem covariance_matrix_warning_guard:
  "covariance_matrix \<lparr>heap = [], printed = []\<rparr> [Fin 1] (Fin 2) (ExpScalar (Fin 1))
     = (\<lparr>heap = [], printed = []\<rparr>, Inr [Fin 5])
   \<and> covariance_matrix \<lparr>heap = [], printed = []\<rparr> [Fin 1] (Fin (1 / 2)) (ExpScalar (Fin 1))
     = (\<lparr>heap = [], printed = [Warn_sigma_b_f (Fin (1 / 2))]\<rparr>, Inr [Fin (5 / 4)])"
  by (simp add: covariance_matrix_def Let_def emit_def ebind_def np_ge_def np_square_def)

section \<open>Properties of the masked grid\<close>

lemma active_round_trip:
  assumes wf: "length (self_idex_mask s) = self_nx s * self_ny s"
    and lv: "length v = (if self_idex_mask_bool s
                     then length (filter (\<lambda>f. f = Fin 1) (self_idex_mask s))
                     else self_nx s * self_ny s)"
  shows "ebind (array2image s v 1) (image2array s) = Inr v"
proof (cases "self_idex_mask_bool s")
  case True
  let ?g = "replicate (self_nx s * self_ny s) (Fin 0)"
  have lv': "length v = length (filter (\<lambda>f. f = Fin 1) (self_idex_mask s))"
    using lv True by simp
  have lg: "length (self_idex_mask s) = length ?g" using wf by simp
  from index_assign_roundtrip[OF lg lv']
  obtain g' where g': "bool_assign ?g (self_idex_mask s) v = Inr g'"
      "bool_index g' (self_idex_mask s) = Inr v"
    by (auto simp: ebind_def split: sum.splits)
  then have "length g' = self_nx s * self_ny s"
    using wf by (auto simp: bool_index_def split: if_splits)
  then show ?thesis
    using True g'
    by (simp add: array2image_def image2array_def ebind_def util_array2image_def
        util_image2array_def concat_rows)
next
  case False
  then show ?thesis
    using lv
    by (simp add: array2image_def image2array_def ebind_def util_array2image_def
        util_image2array_def concat_rows)
qed

text \<open>
  C6.  For every object whose index mask has \<open>nx * ny\<close> entries and every image of
  \<open>nx\<close> rows of \<open>ny\<close> entries, \<open>image2array\<close> returns an active vector \<open>a\<close>;
  \<open>image2array\<close> after \<open>array2image\<close> returns \<open>a\<close> again, exactly; and
  \<open>array2image\<close> of \<open>a\<close> is the image with every entry outside the mask set to zero
  (the image itself when no index mask was supplied), so the two maps are inverse on the
  masked support.
\<close>

theorem compaction_round_trip:
  assumes wf: "length (self_idex_mask s) = self_nx s * self_ny s"
    and shape: "length img = self_nx s" "\<forall>r\<in>set img. length r = self_ny s"
  shows "\<exists>a. image2array s img = Inr a
           \<and> ebind (array2image s a 1) (image2array s) = Inr a
           \<and> array2image s a 1
               = Inr (if self_idex_mask_bool s
                      then rows (self_nx s) (self_ny s) (masked (concat img) (self_idex_mask s))
                      else img)"
proof -
  have lc: "length (concat img) = self_nx s * self_ny s"
    using concat_uniform_length[OF shape(2)] shape(1) by simp
  show ?thesis
  proof (cases "self_idex_mask_bool s")
    case True
    have lm: "length (self_idex_mask s) = length (concat img)" using wf lc by simp
    obtain a where a: "bool_index (concat img) (self_idex_mask s) = Inr a"
        "length a = length (filter (\<lambda>f. f = Fin 1) (self_idex_mask s))"
      using bool_index_length[OF lm] by auto
    have rt: "ebind (array2image s a 1) (image2array s) = Inr a"
      using active_round_trip[OF wf, of a] a(2) True by simp
    have "bool_assign (replicate (length (concat img)) (Fin 0)) (self_idex_mask s) a
        = Inr (masked (concat img) (self_idex_mask s))"
      using assign_index[OF lm] a(1) by (simp add: ebind_def)
    moreover have "length (masked (concat img) (self_idex_mask s)) = self_nx s * self_ny s"
      using lm lc by (simp add: masked_def)
    ultimately have "array2image s a 1
        = Inr (rows (self_nx s) (self_ny s) (masked (concat img) (self_idex_mask s)))"
      using True lc by (simp add: array2image_def ebind_def util_array2image_def)
    then show ?thesis using True a(1) rt
      by (simp add: image2array_def util_image2array_def)
  next
    case False
    have rt: "ebind (array2image s (concat img) 1) (image2array s) = Inr (concat img)"
      using active_round_trip[OF wf, of "concat img"] lc False by simp
    have "array2image s (concat img) 1 = Inr img"
      using False lc rows_concat[OF shape(2)] shape(1)
      by (simp add: array2image_def ebind_def util_array2image_def)
    then show ?thesis using False rt
      by (simp add: image2array_def util_image2array_def)
  qed
qed

theorem compaction_round_trip_witness:
  "image2array (fit_state [] [] []
       \<lparr>self_idex_mask := [Fin 1, Fin 0, Fin 0, Fin 1], self_idex_mask_bool := True,
        self_nx := 2, self_ny := 2\<rparr>) [[Fin 5, Fin 6], [Fin 7, Fin 8]] = Inr [Fin 5, Fin 8]
   \<and> ebind (array2image (fit_state [] [] []
       \<lparr>self_idex_mask := [Fin 1, Fin 0, Fin 0, Fin 1], self_idex_mask_bool := True,
        self_nx := 2, self_ny := 2\<rparr>) [Fin 5, Fin 8] 1)
       (image2array (fit_state [] [] []
       \<lparr>self_idex_mask := [Fin 1, Fin 0, Fin 0, Fin 1], self_idex_mask_bool := True,
        self_nx := 2, self_ny := 2\<rparr>)) = Inr [Fin 5, Fin 8]"
proof -
  let ?s = "fit_state [] [] []
       \<lparr>self_idex_mask := [Fin 1, Fin 0, Fin 0, Fin 1], self_idex_mask_bool := True,
        self_nx := 2, self_ny := 2\<rparr>"
  have v: "image2array ?s [[Fin 5, Fin 6], [Fin 7, Fin 8]] = Inr [Fin 5, Fin 8]"
    by (simp add: image2array_def util_image2array_def bool_index_def fit_state_def)
  obtain a where "image2array ?s [[Fin 5, Fin 6], [Fin 7, Fin 8]] = Inr a"
      "ebind (array2image ?s a 1) (image2array ?s) = Inr a"
    using compaction_round_trip [of ?s "[[Fin 5, Fin 6], [Fin 7, Fin 8]]"]
    by (auto simp: fit_state_def)
  then show ?thesis using v by simp
qed

text \<open>
  C7.  For every index mask of \<open>nx * ny\<close> entries: with \<open>subgrid_res = 1\<close> the subgrid
  mask is the index mask itself; with \<open>subgrid_res = k\<close> the subgrid mask has
  \<open>(nx * k) * (ny * k)\<close> entries, the flag of native pixel \<open>(i, j)\<close> is found at every
  position \<open>(i * k + a, j * k + b)\<close> with \<open>a, b < k\<close> of the subgrid image, and every
  position of the subgrid mask holds the flag of the native pixel whose footprint it
  lies in.
\<close>

theorem subgrid_idex_block_upsampling:
  assumes len: "length idex_mask = nx * ny"
  shows "subgrid_idex idex_mask 1 nx ny = Inr idex_mask
       \<and> (\<exists>sub. subgrid_idex idex_mask k nx ny = Inr sub
             \<and> length sub = (nx * k) * (ny * k)
             \<and> (\<forall>i<nx. \<forall>j<ny. \<forall>a<k. \<forall>b<k.
                   sub ! ((i * k + a) * (ny * k) + (j * k + b)) = idex_mask ! (i * ny + j))
             \<and> (\<forall>p < length sub.
                   sub ! p = idex_mask ! ((p div (ny * k)) div k * ny + (p mod (ny * k)) div k)))"
proof -
  let ?sub = "concat (np_repeat (rows nx (ny * k) (np_repeat idex_mask k)) k)"
  have "concat (np_repeat (rows nx (ny * 1) (np_repeat idex_mask 1)) 1) = idex_mask"
    by (simp only: np_repeat_one nat_mult_1_right concat_rows[OF len])
  then have one: "subgrid_idex idex_mask 1 nx ny = Inr idex_mask"
    by (simp only: subgrid_idex_value[OF len])
  have lM: "length (np_repeat idex_mask k) = nx * (ny * k)"
    using len by (simp add: length_np_repeat)
  have lsub: "length ?sub = (nx * k) * (ny * k)"
    using concat_uniform_length[OF np_repeat_uniform[OF rows_uniform[OF lM]], of k]
    by (simp add: length_np_repeat length_rows)
  have fwd: "\<forall>i<nx. \<forall>j<ny. \<forall>a<k. \<forall>b<k.
      ?sub ! ((i * k + a) * (ny * k) + (j * k + b)) = idex_mask ! (i * ny + j)"
    using subgrid_footprint[OF len] by blast
  have pt: "?sub ! p = idex_mask ! ((p div (ny * k)) div k * ny + (p mod (ny * k)) div k)"
    if p: "p < length ?sub" for p
  proof -
    have pos: "0 < k" "0 < ny" using p lsub by (auto intro: Nat.gr0I)
    let ?r = "p div (ny * k)" and ?c = "p mod (ny * k)"
    have r: "?r < nx * k"
      using p lsub pos by (simp add: less_mult_imp_div_less)
    have c: "?c < ny * k" using pos by simp
    have i: "?r div k < nx" using r pos by (simp add: less_mult_imp_div_less)
    have j: "?c div k < ny" using c pos by (simp add: less_mult_imp_div_less)
    have a: "?r mod k < k" and b: "?c mod k < k" using pos by simp_all
    have "?r div k * k + ?r mod k = ?r" "?c div k * k + ?c mod k = ?c"
      by (rule div_mult_mod_eq)+
    then have "p = (?r div k * k + ?r mod k) * (ny * k) + (?c div k * k + ?c mod k)"
      using div_mult_mod_eq[of p "ny * k"] by (simp only:)
    then have "?sub ! p = ?sub ! ((?r div k * k + ?r mod k) * (ny * k) + (?c div k * k + ?c mod k))"
      by simp
    also have "\<dots> = idex_mask ! (?r div k * ny + ?c div k)"
      by (rule subgrid_footprint[OF len i j a b])
    finally show ?thesis .
  qed
  show ?thesis
    using one subgrid_idex_value[OF len, of k] lsub fwd pt by simp
qed

theorem subgrid_idex_block_upsampling_witness:
  "length [Fin 1, Fin 0, Fin 0, Fin 1, Fin 1, Fin 1] = 2 * 3
   \<and> subgrid_idex [Fin 1, Fin 0, Fin 0, Fin 1, Fin 1, Fin 1] 1 2 3
       = Inr [Fin 1, Fin 0, Fin 0, Fin 1, Fin 1, Fin 1]
   \<and> (case subgrid_idex [Fin 1, Fin 0, Fin 0, Fin 1, Fin 1, Fin 1] 2 2 3 of
         Inl e \<Rightarrow> False
       | Inr sub \<Rightarrow> length sub = 24 \<and> sub ! 19 = Fin 1 \<and> sub ! 5 = Fin 0)"
proof -
  let ?m = "[Fin 1, Fin 0, Fin 0, Fin 1, Fin 1, Fin 1]"
  have len: "length ?m = 2 * 3" by simp
  from subgrid_idex_block_upsampling [OF len, of 2]
  obtain sub where one: "subgrid_idex ?m 1 2 3 = Inr ?m"
    and sub: "subgrid_idex ?m 2 2 3 = Inr sub" "length sub = (2 * 2) * (3 * 2)"
    and pt: "\<forall>p < length sub. sub ! p = ?m ! ((p div (3 * 2)) div 2 * 3 + (p mod (3 * 2)) div 2)"
    by blast
  have "sub ! 19 = ?m ! ((19 div (3 * 2)) div 2 * 3 + (19 mod (3 * 2)) div 2)"
    using pt sub(2) by simp
  moreover have "sub ! 5 = ?m ! ((5 div (3 * 2)) div 2 * 3 + (5 mod (3 * 2)) div 2)"
    using pt sub(2) by simp
  ultimately show ?thesis using one sub len by simp
qed

section \<open>Properties of the fit statistics\<close>

text \<open>
  C3, amended.  The fit statistics make no length check of their own: the first
  operation, \<open>model - self._data\<close>, is numpy's broadcasting subtraction.  For a
  well-formed object (variance and mask of the data's length, error term a number or an
  array of the data's length) and a model whose length differs from the data's, each of
  \<open>reduced_residuals\<close>, \<open>log_likelihood\<close> and \<open>reduced_chi2\<close> fails with numpy's
  \<open>ValueError\<close> when neither length is 1, and returns a value when one of them is 1.
\<close>

theorem fit_statistics_length_mismatch:
  assumes wf: "length (self_C_D s) = length (self_data s)" "length (mask_prop s) = length (self_data s)"
      "case e of Sc x \<Rightarrow> True | Vec v \<Rightarrow> length v = length (self_data s)"
    and ne: "length model \<noteq> length (self_data s)"
  shows "if length model = 1 \<or> length (self_data s) = 1
         then \<exists>r l c. reduced_residuals s model e = Inr r \<and> log_likelihood s model e = Inr l
                \<and> reduced_chi2 s model e = Inr c
         else reduced_residuals s model e = Inl ValueError \<and> log_likelihood s model e = Inl ValueError
                \<and> reduced_chi2 s model e = Inl ValueError"
proof (cases "length model = 1 \<or> length (self_data s) = 1")
  case False
  then have "bcast np_sub model (self_data s) = Inl ValueError"
    using ne by (simp add: bcast_mismatch)
  then show ?thesis using False
    by (simp add: reduced_residuals_def log_likelihood_def reduced_chi2_def ebind_def)
next
  case True
  obtain var where var: "vec_nd np_add (self_C_D s) (nd_map np_abs e) = Inr var"
      "length var = length (self_data s)"
  proof -
    have "case e of Sc x \<Rightarrow> True | Vec v \<Rightarrow> length v = length (self_C_D s)"
      using wf by (cases e) auto
    from vec_nd_wf[OF this, of np_add np_abs] show ?thesis using that wf(1) by auto
  qed
  obtain diff where diff: "bcast np_sub model (self_data s) = Inr diff"
      "length diff = (if length model = 1 then length (self_data s) else length model)"
    using True bcast_left1[of model np_sub "self_data s"] bcast_right1[of "self_data s" np_sub model]
    by (auto split: if_splits)
  have ok: "length xs = length diff \<Longrightarrow> length ys = length (self_data s)
      \<Longrightarrow> \<exists>zs. bcast f xs ys = Inr zs \<and> length zs = length diff" for f xs ys
    using True diff(2) ne by (auto simp: bcast_def split: if_splits)
  obtain q1 where q1: "bcast np_div diff (map np_sqrt var) = Inr q1" "length q1 = length diff"
    using ok[of diff "map np_sqrt var" np_div] var(2) by auto
  obtain r where r: "bcast np_mul q1 (mask_prop s) = Inr r"
    using ok[of q1 "mask_prop s" np_mul] q1(2) wf(2) by auto
  obtain q2 where q2: "bcast np_div (map np_square diff) var = Inr q2" "length q2 = length diff"
    using ok[of "map np_square diff" var np_div] var(2) by auto
  obtain X2 where X2: "bcast np_mul q2 (mask_prop s) = Inr X2"
    using ok[of q2 "mask_prop s" np_mul] q2(2) wf(2) by auto
  show ?thesis using True
    by (simp add: reduced_residuals_def log_likelihood_def reduced_chi2_def ebind_def
        var diff q1 r q2 X2)
qed

theorem fit_statistics_length_mismatch_witness:
  "length [Fin 5, Fin 6, Fin 7] \<noteq> length (self_data (fit_state [Fin 1, Fin 2] [Fin 1, Fin 1] [Fin 1, Fin 1]))
   \<and> reduced_residuals (fit_state [Fin 1, Fin 2] [Fin 1, Fin 1] [Fin 1, Fin 1])
         [Fin 5, Fin 6, Fin 7] (Sc (Fin 0)) = Inl ValueError
   \<and> log_likelihood (fit_state [Fin 1, Fin 2] [Fin 1, Fin 1] [Fin 1, Fin 1])
         [Fin 5, Fin 6, Fin 7] (Sc (Fin 0)) = Inl ValueError
   \<and> reduced_chi2 (fit_state [Fin 1, Fin 2] [Fin 1, Fin 1] [Fin 1, Fin 1])
         [Fin 5, Fin 6, Fin 7] (Sc (Fin 0)) = Inl ValueError"
  using fit_statistics_length_mismatch
    [of "fit_state [Fin 1, Fin 2] [Fin 1, Fin 1] [Fin 1, Fin 1]" "Sc (Fin 0)" "[Fin 5, Fin 6, Fin 7]"]
  by (simp add: fit_state_def mask_prop_def)

text \<open>
  C3 as stated fails: a model of length 1 against stored data of length 2 is broadcast,
  and all three statistics return a value.
\<close>

theorem fit_statistics_broadcast_counterexample:
  "length [Fin 5] \<noteq> length (self_data (fit_state [Fin 1, Fin 2] [Fin 1, Fin 1] [Fin 1, Fin 1]))
   \<and> reduced_residuals (fit_state [Fin 1, Fin 2] [Fin 1, Fin 1] [Fin 1, Fin 1])
         [Fin 5] (Sc (Fin 0)) = Inr [Fin 4, Fin 3]
   \<and> log_likelihood (fit_state [Fin 1, Fin 2] [Fin 1, Fin 1] [Fin 1, Fin 1])
         [Fin 5] (Sc (Fin 0)) = Inr (Fin (- (25 / 2)))
   \<and> reduced_chi2 (fit_state [Fin 1, Fin 2] [Fin 1, Fin 1] [Fin 1, Fin 1])
         [Fin 5] (Sc (Fin 0)) = Inr (Fin (25 / 2))"
  by (simp add: fit_state_def mask_prop_def reduced_residuals_def log_likelihood_def
      reduced_chi2_def ebind_def bcast_def np_sub_def np_square_def np_sum_def)

text \<open>
  C9, amended.  If the model equals the stored data entry for entry, the data are
  finite, the model-error term is 0, every stored variance is greater than zero, the
  fit mask is finite and its sum is not zero, then \<open>log_likelihood\<close> returns 0 and
  \<open>reduced_chi2\<close> returns 0.
\<close>

theorem exact_match_statistics:
  assumes len: "length (self_C_D s) = length (self_data s)"
               "length (mask_prop s) = length (self_data s)"
    and fin: "\<forall>x\<in>set (self_data s). is_fin x"
    and var: "\<forall>c\<in>set (self_C_D s). np_lt (Fin 0) c"
    and msk: "\<forall>m\<in>set (mask_prop s). is_fin m"
    and nz: "np_sum (mask_prop s) \<noteq> Fin 0"
  shows "log_likelihood s (self_data s) (Sc (Fin 0)) = Inr (Fin 0)
       \<and> reduced_chi2 s (self_data s) (Sc (Fin 0)) = Inr (Fin 0)"
proof -
  let ?diff = "map2 np_sub (self_data s) (self_data s)"
  let ?var = "map (\<lambda>x. np_add x (np_abs (Fin 0))) (self_C_D s)"
  let ?q = "map2 np_div (map np_square ?diff) ?var"
  let ?X2 = "map2 np_mul ?q (mask_prop s)"
  have d0: "\<forall>z\<in>set (map np_square ?diff). z = Fin 0"
    using sub_self_zero[OF fin] by (auto simp: np_square_def)
  have v: "\<forall>y\<in>set ?var. np_div (Fin 0) y = Fin 0"
    using var by (simp add: zero_over_pos del: np_add.simps np_div.simps)
  have q0: "\<forall>z\<in>set ?q. z = Fin 0"
    by (rule map2_all[OF d0 v]) simp
  have X0: "\<forall>z\<in>set ?X2. z = Fin 0"
    by (rule map2_all[OF q0 msk]) (simp add: zero_times_fin)
  obtain S where S: "np_sum (mask_prop s) = Fin S" using np_sum_fin[OF msk] by blast
  then have S0: "S \<noteq> 0" using nz by simp
  have c0: "\<forall>z\<in>set (map (\<lambda>x. np_div x (Fin S)) ?X2). z = Fin 0"
    using X0 S0 by (simp del: np_div.simps) (auto)
  have steps: "bcast np_sub (self_data s) (self_data s) = Inr ?diff"
    "bcast np_div (map np_square ?diff) ?var = Inr ?q"
    "bcast np_mul ?q (mask_prop s) = Inr ?X2"
    using len by (simp_all add: bcast_same)
  have var_eq: "vec_nd np_add (self_C_D s) (nd_map np_abs (Sc (Fin 0))) = Inr ?var"
    by simp
  have ll: "log_likelihood s (self_data s) (Sc (Fin 0)) = Inr (np_div (np_neg (np_sum ?X2)) (Fin 2))"
    unfolding log_likelihood_def by (simp only: steps var_eq ebind_def sum.case)
  have chi: "reduced_chi2 s (self_data s) (Sc (Fin 0))
      = Inr (np_sum (map (\<lambda>x. np_div x (Fin S)) ?X2))"
    unfolding reduced_chi2_def by (simp only: steps var_eq ebind_def sum.case S)
  show ?thesis
    unfolding ll chi np_sum_all_zero[OF X0] np_sum_all_zero[OF c0] by simp
qed


theorem exact_match_statistics_witness:
  "np_sum (mask_prop (fit_state [Fin 1, Fin 2] [Fin 1, Fin 1] [Fin 1, Fin 1])) \<noteq> Fin 0
   \<and> log_likelihood (fit_state [Fin 1, Fin 2] [Fin 1, Fin 1] [Fin 1, Fin 1])
         [Fin 1, Fin 2] (Sc (Fin 0)) = Inr (Fin 0)
   \<and> reduced_chi2 (fit_state [Fin 1, Fin 2] [Fin 1, Fin 1] [Fin 1, Fin 1])
         [Fin 1, Fin 2] (Sc (Fin 0)) = Inr (Fin 0)"
  using exact_match_statistics [of "fit_state [Fin 1, Fin 2] [Fin 1, Fin 1] [Fin 1, Fin 1]"]
  by (simp add: fit_state_def mask_prop_def np_sum_def)

text \<open>
  C9 as stated fails: with a fit mask that sums to zero, \<open>reduced_chi2\<close> divides
  \<open>0\<close> by \<open>0\<close> and returns \<open>nan\<close>, although the model equals the data and the
  model-error term is 0.
\<close>

theorem exact_match_zero_mask_counterexample:
  "reduced_chi2 (fit_state [Fin 1] [Fin 1] [Fin 0]) (self_data (fit_state [Fin 1] [Fin 1] [Fin 0]))
     (Sc (Fin 0)) = Inr NaN
   \<and> Inr NaN \<noteq> (Inr (Fin 0) :: error + npfloat)"
  by (simp add: fit_state_def mask_prop_def reduced_chi2_def ebind_def bcast_def np_sub_def
      np_square_def np_sum_def)

section \<open>Properties of PSF convolution and resampling\<close>

text \<open>
  C8.  \<open>psf_convolution\<close> decides that a frequency-domain kernel was supplied by the
  key \<open>kernel_fft\<close> but then reads the key \<open>kernel_pixel_fft\<close>, outside the \<open>try\<close>:
  a pixel PSF that supplies its frequency-domain kernel as \<open>kernel_fft\<close> makes the call
  fail with \<open>KeyError\<close> for every grid and kernel, instead of convolving.  Only when both
  keys are present does a failing fast path fall back to the general convolution.
\<close>

theorem psf_convolution_kernel_fft_key:
  "psf_convolution U (s\<lparr>self_psf_subgrid := False\<rparr>) grid grid_scale
     [(''psf_type'', PStr ''pixel''), (''kernel_pixel'', K), (''kernel_fft'', F)]
   = Inl (KeyError ''kernel_pixel_fft'')
   \<and> psf_convolution U (s\<lparr>self_psf_subgrid := False\<rparr>) grid grid_scale
     [(''psf_type'', PStr ''pixel''), (''kernel_pixel'', K), (''kernel_fft'', F),
      (''kernel_pixel_fft'', F)]
   = try_except (fft_fftconvolve U grid K F) (signal_fftconvolve U grid K)"
  by (simp add: psf_convolution_def py_eq_str_def kw_getitem_def ebind_def)

text \<open>
  C1.  The test that selects binning before convolution compares the whole PSF
  dictionary with the string \<open>'pixel'\<close> (\<open>kwargs_psf == 'pixel'\<close>), which never holds for
  an argument whose \<open>psf_type\<close> could be read.  So for every argument the bin-first branch
  is dead: whenever convolution is not skipped, the image is convolved at subgrid
  resolution and binned afterwards.  In particular a pixel kernel without subgrid
  refinement is applied to the subgrid image.
\<close>

theorem re_size_convolve_always_convolves_first:
  "re_size_convolve U s image_in kwargs_psf unconvolved =
     ebind (array2image s image_in (self_subgrid_res s)) (\<lambda>img.
     ebind (if unconvolved then Inr True
            else ebind (py_getitem kwargs_psf ''psf_type'') (\<lambda>t. Inr (py_eq_str t ''NONE'')))
       (\<lambda>skip.
     ebind (if skip then util_re_size U img (self_subgrid_res s)
            else ebind (py_unpack kwargs_psf) (\<lambda>kw.
                 ebind (psf_convolution U s img
                          (np_div (self_deltaPix s) (Fin (real (self_subgrid_res s)))) kw)
                   (\<lambda>grid_conv. util_re_size U grid_conv (self_subgrid_res s))))
       (image2array s)))
   \<and> re_size_convolve U (s\<lparr>self_psf_subgrid := False\<rparr>) image_in
       (PDict [(''psf_type'', PStr ''pixel''), (''kernel_pixel'', K)]) False =
     ebind (array2image (s\<lparr>self_psf_subgrid := False\<rparr>) image_in (self_subgrid_res s)) (\<lambda>img.
     ebind (ebind (signal_fftconvolve U img K)
              (\<lambda>grid_conv. util_re_size U grid_conv (self_subgrid_res s)))
       (image2array (s\<lparr>self_psf_subgrid := False\<rparr>)))"
proof
  show "re_size_convolve U s image_in kwargs_psf unconvolved =
     ebind (array2image s image_in (self_subgrid_res s)) (\<lambda>img.
     ebind (if unconvolved then Inr True
            else ebind (py_getitem kwargs_psf ''psf_type'') (\<lambda>t. Inr (py_eq_str t ''NONE'')))
       (\<lambda>skip.
     ebind (if skip then util_re_size U img (self_subgrid_res s)
            else ebind (py_unpack kwargs_psf) (\<lambda>kw.
                 ebind (psf_convolution U s img
                          (np_div (self_deltaPix s) (Fin (real (self_subgrid_res s)))) kw)
                   (\<lambda>grid_conv. util_re_size U grid_conv (self_subgrid_res s))))
       (image2array s)))"
  proof (cases "kwargs_psf = PStr ''pixel''")
    case True
    then show ?thesis
      by (cases unconvolved) (simp_all add: re_size_convolve_def ebind_def Let_def)
  next
    case False
    then have "py_eq_str kwargs_psf ''pixel'' = False"
      by (simp add: py_eq_str_def)
    then show ?thesis
      unfolding re_size_convolve_def Let_def by (simp only: simp_thms if_False)
  qed
next
  show "re_size_convolve U (s\<lparr>self_psf_subgrid := False\<rparr>) image_in
       (PDict [(''psf_type'', PStr ''pixel''), (''kernel_pixel'', K)]) False =
     ebind (array2image (s\<lparr>self_psf_subgrid := False\<rparr>) image_in (self_subgrid_res s)) (\<lambda>img.
     ebind (ebind (signal_fftconvolve U img K)
              (\<lambda>grid_conv. util_re_size U grid_conv (self_subgrid_res s)))
       (image2array (s\<lparr>self_psf_subgrid := False\<rparr>)))"
    by (simp add: re_size_convolve_def psf_convolution_def py_eq_str_def kw_getitem_def ebind_def)
qed

section \<open>Frame properties of construction and the noise model\<close>

lemma heap_frame_refl: "heap_frame n A w w"
  by (simp add: heap_frame_def)

lemma heap_frame_trans: "heap_frame n A w w1 \<Longrightarrow> heap_frame n A w1 w2 \<Longrightarrow> heap_frame n A w w2"
  by (auto simp: heap_frame_def)

lemma heap_frame_mono: "heap_frame n A w w' \<Longrightarrow> A \<subseteq> B \<Longrightarrow> heap_frame n B w w'"
  by (auto simp: heap_frame_def)

lemma heap_frame_emit: "heap_frame n A w (emit w x)"
  by (simp add: heap_frame_def emit_def)

lemma heap_frame_alloc: "n \<le> length (heap w) \<Longrightarrow> heap_frame n A w (fst (alloc w a))"
  by (simp add: heap_frame_def alloc_def nth_append)

lemma alloc_addr: "snd (alloc w a) = length (heap w)"
  by (simp add: alloc_def)

lemma heap_frame_store:
  assumes "p \<in> A \<or> n \<le> p"
  shows "heap_frame n A w (store w p a)"
proof -
  have "(heap w)[p := a] ! q = heap w ! q" if "q < n" "q \<notin> A" for q
  proof -
    have "p \<noteq> q" using assms that by auto
    then show ?thesis by simp
  qed
  then show ?thesis by (simp add: heap_frame_def store_def)
qed

lemma length_heap_store: "length (heap (store w p a)) = length (heap w)"
  by (simp add: store_def)

lemma heap_frame_length: "heap_frame n A w w' \<Longrightarrow> n \<le> length (heap w) \<Longrightarrow> n \<le> length (heap w')"
  by (simp add: heap_frame_def)

lemma heap_frame_wbind:
  assumes "heap_frame n A w (fst m)"
    and "\<And>w1 x. m = (w1, Inr x) \<Longrightarrow> heap_frame n A w1 (fst (f w1 x))"
  shows "heap_frame n A w (fst (wbind m f))"
proof (cases m)
  case (Pair w1 r)
  show ?thesis
  proof (cases r)
    case (Inl e)
    then show ?thesis using assms(1) Pair by (simp add: wbind_def)
  next
    case (Inr x)
    then have "heap_frame n A w1 (fst (f w1 x))" using assms(2) Pair by simp
    moreover have "heap_frame n A w w1" using assms(1) Pair by simp
    ultimately show ?thesis using Pair Inr by (simp add: wbind_def heap_frame_trans)
  qed
qed

lemma covariance_matrix_frame:
  "heap_frame n A w (fst (covariance_matrix w d sigma_b f))" if "case f of ExpScalar x \<Rightarrow> True | ExpMap p \<Rightarrow> p \<in> A \<or> n \<le> p"
proof -
  have "heap_frame n A w (store w p a)" if "f = ExpMap p" for p a
    using that \<open>case f of ExpScalar x \<Rightarrow> True | ExpMap p \<Rightarrow> p \<in> A \<or> n \<le> p\<close>
    by (intro heap_frame_store) simp
  then show ?thesis
    by (cases f)
       (auto simp: covariance_matrix_def Let_def heap_frame_refl heap_frame_emit
          intro: heap_frame_trans[OF _ heap_frame_emit] split: sum.splits)
qed

lemma init_arrays_frame:
  "n \<le> length (heap w) \<Longrightarrow> heap_frame n A w (fst (init_arrays w kd))"
  by (auto simp: init_arrays_def heap_frame_def alloc_def emit_def Let_def nth_append
      case_prod_beta split: option.splits)

lemma init_sigma_b_frame: "heap_frame n A w (fst (init_sigma_b w kd))"
  by (auto simp: init_sigma_b_def heap_frame_def emit_def split: option.splits)

lemma init_exposure_frame:
  assumes n: "n \<le> length (heap w)" and A: "set_option (kw_exposure_map kd) \<subseteq> A"
  shows "heap_frame n A w (fst (init_exposure w kd im))"
proof (cases "kw_exposure_map kd")
  case None
  then show ?thesis
    by (auto simp: init_exposure_def heap_frame_refl heap_frame_emit split: option.splits)
next
  case (Some e)
  let ?w1 = "store w e (map (\<lambda>x. if np_le x (Fin 0) then Fin (1 / 1000) else x) (heap w ! e))"
  have f1: "heap_frame n A w ?w1" using A Some by (intro heap_frame_store) simp
  have "heap_frame n A ?w1 (fst (alloc ?w1 f))" for f
    using n by (intro heap_frame_alloc) (simp add: length_heap_store)
  then have "heap_frame n A w (fst (alloc ?w1 f))" for f
    using f1 heap_frame_trans by blast
  then show ?thesis
    using f1 Some by (auto simp: init_exposure_def Let_def case_prod_beta split: sum.splits)
qed

lemma init_exposure_fresh:
  assumes "init_exposure w kd im = (w', Inr (ExpMap p))" "n \<le> length (heap w)"
  shows "n \<le> p"
  using assms
  by (auto simp: init_exposure_def alloc_def store_def Let_def case_prod_beta
      split: option.splits sum.splits)

lemma init_mask_frame:
  assumes "set_option (kw_mask kd) \<subseteq> A"
  shows "heap_frame n A w (fst (init_mask w kd data im da))"
proof (cases "kw_mask kd")
  case None
  then show ?thesis by (simp add: init_mask_def heap_frame_refl)
next
  case (Some m)
  have "heap_frame n A w (store w m a)" for a
    using assms Some by (intro heap_frame_store) simp
  then show ?thesis
    using Some by (auto simp: init_mask_def heap_frame_refl split: sum.splits)
qed

lemma init_tail_frame:
  assumes "set_option (kw_mask kd) \<subseteq> A"
    and "case ex of ExpScalar x \<Rightarrow> True | ExpMap p \<Rightarrow> p \<in> A \<or> n \<le> p"
  shows "heap_frame n A w
           (fst (init_tail U kd k psf llm data im imb sigma_b w ex))"
  unfolding init_tail_def Let_def case_prod_beta
  by (intro heap_frame_wbind covariance_matrix_frame[OF assms(2)] init_mask_frame[OF assms(1)])
     (simp_all add: heap_frame_refl)

lemma fst_wbind:
  "fst (wbind m f) = (case snd m of Inl e \<Rightarrow> fst m | Inr x \<Rightarrow> fst (f (fst m) x))"
  by (cases m) (auto simp: wbind_def split: sum.splits)

lemma wbind_Inr:
  "wbind m f = (w', Inr y) \<Longrightarrow> \<exists>w1 x. m = (w1, Inr x) \<and> f w1 x = (w', Inr y)"
  by (cases m) (auto simp: wbind_def split: sum.splits)

lemma covariance_matrix_heap:
  "heap (fst (covariance_matrix w d sigma_b f))
   = (case f of
        ExpScalar x \<Rightarrow> heap w
      | ExpMap p \<Rightarrow> (heap w)[p := map (\<lambda>x. if np_lt x (np_div (np_mean (heap w ! p)) (Fin 10))
                                         then np_div (np_mean (heap w ! p)) (Fin 10) else x)
                                  (heap w ! p)])"
  by (cases f) (auto simp: covariance_matrix_def Let_def store_def emit_def split: sum.splits)

lemma Data_init_frame:
  "heap_frame (length (heap w)) (set_option (kw_exposure_map kd) \<union> set_option (kw_mask kd)) w
     (fst (Data_init U w kd k psf llm))"
proof -
  let ?n = "length (heap w)"
  let ?A = "set_option (kw_exposure_map kd) \<union> set_option (kw_mask kd)"
  let ?w1 = "fst (init_arrays w kd)"
  let ?w2 = "fst (init_sigma_b ?w1 kd)"
  have f1: "heap_frame ?n ?A w ?w1" by (rule init_arrays_frame) simp
  have f2: "heap_frame ?n ?A w ?w2"
    by (rule heap_frame_trans[OF f1 init_sigma_b_frame])
  have n2: "?n \<le> length (heap ?w2)" using f2 by (simp add: heap_frame_def)
  have "heap_frame ?n ?A ?w2
          (fst (wbind (init_exposure ?w2 kd im) (init_tail U kd k psf llm data im imb sb)))"
    for im data imb sb
  proof (rule heap_frame_wbind)
    show "heap_frame ?n ?A ?w2 (fst (init_exposure ?w2 kd im))"
      by (rule init_exposure_frame[OF n2]) simp
  next
    fix w3 ex assume e: "init_exposure ?w2 kd im = (w3, Inr ex)"
    have "case ex of ExpScalar x \<Rightarrow> True | ExpMap p \<Rightarrow> p \<in> ?A \<or> ?n \<le> p"
      using init_exposure_fresh[OF _ n2] e by (cases ex) auto
    then show "heap_frame ?n ?A w3 (fst (init_tail U kd k psf llm data im imb sb w3 ex))"
      by (intro init_tail_frame) simp_all
  qed
  then show ?thesis
    unfolding Data_init_def Let_def case_prod_beta
    using heap_frame_trans[OF f2] by blast
qed

lemma init_exposure_effect:
  assumes "kw_exposure_map kd = Some e" "e < length (heap w)"
  shows "heap (fst (init_exposure w kd im)) ! e
         = map (\<lambda>x. if np_le x (Fin 0) then Fin (1 / 1000) else x) (heap w ! e)"
  using assms
  by (auto simp: init_exposure_def Let_def case_prod_beta alloc_def store_def nth_append
      split: sum.splits)

lemma Data_init_exposure:
  assumes e: "kw_exposure_map kd = Some e" "e < length (heap w)" and m: "kw_mask kd \<noteq> Some e"
  shows "heap (fst (Data_init U w kd k psf llm)) ! e
         = map (\<lambda>x. if np_le x (Fin 0) then Fin (1 / 1000) else x) (heap w ! e)"
proof -
  let ?n = "length (heap w)"
  let ?M = "set_option (kw_mask kd)"
  let ?w1 = "fst (init_arrays w kd)"
  let ?w2 = "fst (init_sigma_b ?w1 kd)"
  have f2: "heap_frame ?n {} w ?w2"
    by (rule heap_frame_trans[OF init_arrays_frame init_sigma_b_frame]) simp
  then have n2: "?n \<le> length (heap ?w2)" and e2: "heap ?w2 ! e = heap w ! e"
    using e(2) by (simp_all add: heap_frame_def)
  have eM: "e \<notin> ?M" using m by (cases "kw_mask kd") auto
  have "heap (fst (wbind (init_exposure ?w2 kd im) (init_tail U kd k psf llm data im imb sb))) ! e
        = map (\<lambda>x. if np_le x (Fin 0) then Fin (1 / 1000) else x) (heap w ! e)"
    for im data imb sb
  proof -
    let ?w3 = "fst (init_exposure ?w2 kd im)"
    have e3: "heap ?w3 ! e = map (\<lambda>x. if np_le x (Fin 0) then Fin (1 / 1000) else x) (heap w ! e)"
      using init_exposure_effect[OF e(1), of ?w2 im] e(2) n2 e2 by simp
    show ?thesis
    proof (cases "snd (init_exposure ?w2 kd im)")
      case (Inl err)
      then show ?thesis using e3 by (simp add: fst_wbind)
    next
      case (Inr ex)
      then have ie: "init_exposure ?w2 kd im = (?w3, Inr ex)" by (simp add: prod_eq_iff)
      have "case ex of ExpScalar x \<Rightarrow> True | ExpMap p \<Rightarrow> p \<in> ?M \<or> ?n \<le> p"
        using init_exposure_fresh[OF _ n2] ie by (cases ex) auto
      then have "heap_frame ?n ?M ?w3 (fst (init_tail U kd k psf llm data im imb sb ?w3 ex))"
        by (intro init_tail_frame) simp_all
      then have "heap (fst (init_tail U kd k psf llm data im imb sb ?w3 ex)) ! e = heap ?w3 ! e"
        using e(2) eM by (simp add: heap_frame_def)
      then show ?thesis using e3 Inr by (simp add: fst_wbind)
    qed
  qed
  then show ?thesis
    unfolding Data_init_def Let_def case_prod_beta by blast
qed

lemma init_tail_Inr:
  assumes "init_tail U kd k psf llm data im imb sb w3 ex = (w', Inr obj)"
  shows "\<exists>da w5 C_D ma mp.
           covariance_matrix w3 da sb ex = (w5, Inr C_D)
         \<and> init_mask w5 kd data im da = (w', Inr (ma, mp))
         \<and> self_mask_pure obj = mp \<and> self_idex_mask obj = heap w' ! im"
  using assms unfolding init_tail_def Let_def
  apply (auto dest!: wbind_Inr simp: case_prod_beta)
  apply blast
  done

lemma init_tail_mask:
  assumes r: "init_tail U kd k psf llm data im imb sb w3 ex = (w', Inr obj)"
    and m: "kw_mask kd = Some m" "m < length (heap w3)" "im \<noteq> m"
    and ex: "ex \<noteq> ExpMap m" "ex \<noteq> ExpMap im"
  shows "heap w' ! m = self_mask_pure obj
       \<and> self_mask_pure obj
           = map2 (\<lambda>x f. if f = Fin 0 then Fin 0 else x) (heap w3 ! m) (self_idex_mask obj)"
proof -
  from init_tail_Inr[OF r] obtain da w5 C_D ma mp where
      cm: "covariance_matrix w3 da sb ex = (w5, Inr C_D)"
    and im6: "init_mask w5 kd data im da = (w', Inr (ma, mp))"
    and obj: "self_mask_pure obj = mp" "self_idex_mask obj = heap w' ! im"
    by blast
  have "heap w5 = heap (fst (covariance_matrix w3 da sb ex))" using cm by simp
  then have h5: "heap w5 ! m = heap w3 ! m" "heap w5 ! im = heap w3 ! im"
      "length (heap w5) = length (heap w3)"
    using ex by (cases ex; simp add: covariance_matrix_heap)+
  have mp: "mp = map2 (\<lambda>x f. if f = Fin 0 then Fin 0 else x) (heap w5 ! m) (heap w5 ! im)"
    and w6: "w' = store w5 m mp"
    using im6 m(1) by (auto simp: init_mask_def bool_assign_scalar_def split: sum.splits if_splits)
  have h6: "heap w' ! m = mp" "heap w' ! im = heap w5 ! im"
    using w6 m(2,3) h5(3) by (simp_all add: store_def)
  show ?thesis using h6 mp h5 obj by simp
qed

lemma init_arrays_idex_mask:
  assumes "\<forall>i. kw_idex_mask kd = Some i \<longrightarrow> i < length (heap w)"
    and "m < length (heap w)" "kw_idex_mask kd \<noteq> Some m"
  shows "fst (snd (snd (init_arrays w kd))) \<noteq> m
       \<and> fst (snd (snd (init_arrays w kd))) < length (heap (fst (init_arrays w kd)))"
  using assms
  by (auto simp: init_arrays_def Let_def case_prod_beta alloc_def emit_def split: option.splits)

lemma Data_init_mask:
  assumes r: "Data_init U w kd k psf llm = (w', Inr obj)"
    and m: "kw_mask kd = Some m" "m < length (heap w)"
    and distinct: "kw_exposure_map kd \<noteq> Some m" "kw_idex_mask kd \<noteq> Some m"
    and valid: "\<forall>i. kw_idex_mask kd = Some i \<longrightarrow> i < length (heap w)"
  shows "heap w' ! m = self_mask_pure obj
       \<and> self_mask_pure obj
           = map2 (\<lambda>x f. if f = Fin 0 then Fin 0 else x) (heap w ! m) (self_idex_mask obj)"
proof -
  let ?n = "length (heap w)"
  let ?E = "set_option (kw_exposure_map kd)"
  let ?ia = "init_arrays w kd"
  let ?w1 = "fst ?ia" and ?data = "fst (snd ?ia)" and ?im = "fst (snd (snd ?ia))"
  let ?imb = "snd (snd (snd ?ia))"
  let ?w2 = "fst (init_sigma_b ?w1 kd)" and ?sb = "snd (init_sigma_b ?w1 kd)"
  have im: "?im \<noteq> m" "?im < length (heap ?w1)"
    using init_arrays_idex_mask[OF valid m(2) distinct(2)] by simp_all
  have f2: "heap_frame ?n ?E w ?w2"
    by (rule heap_frame_trans[OF init_arrays_frame init_sigma_b_frame]) simp
  then have n2: "?n \<le> length (heap ?w2)" by (simp add: heap_frame_def)
  have "length (heap ?w1) \<le> length (heap ?w2)"
    using init_sigma_b_frame[of 0 "{}" ?w1 kd] by (simp add: heap_frame_def)
  then have im2: "?im < length (heap ?w2)" using im(2) by simp
  from r have "wbind (init_exposure ?w2 kd ?im)
      (init_tail U kd k psf llm ?data ?im ?imb ?sb) = (w', Inr obj)"
    unfolding Data_init_def Let_def case_prod_beta .
  from wbind_Inr[OF this] obtain w3 ex where ie: "init_exposure ?w2 kd ?im = (w3, Inr ex)"
    and it: "init_tail U kd k psf llm ?data ?im ?imb ?sb w3 ex = (w', Inr obj)"
    by blast
  have f3: "heap_frame ?n ?E w w3"
    using heap_frame_trans[OF f2 init_exposure_frame[OF n2 subset_refl, where im="?im"]] ie by simp
  have mE: "m \<notin> ?E" using distinct(1) by (cases "kw_exposure_map kd") auto
  have h3: "heap w3 ! m = heap w ! m" "m < length (heap w3)"
    using f3 m(2) mE by (auto simp: heap_frame_def)
  have fresh: "length (heap ?w2) \<le> p" if "ex = ExpMap p" for p
    using init_exposure_fresh[OF _ le_refl, where w="?w2" and kd=kd and im="?im"] ie that by simp
  have ex: "ex \<noteq> ExpMap m" "ex \<noteq> ExpMap ?im"
    using fresh n2 m(2) im2 by fastforce+
  show ?thesis
    using init_tail_mask[OF it m(1) h3(2) im(1) ex] h3(1) by simp
qed

lemmas demo_eval =
  Data_init_def init_tail_def demo_ext_def demo_kwargs_def demo_world_def init_arrays_def
  init_sigma_b_def init_exposure_def init_mask_def init_grids_def wbind_def store_def alloc_def
  emit_def bool_index_def bool_assign_scalar_def covariance_matrix_def Let_def ebind_def
  np_mean_def np_sum_def np_max2_def np_ge_def np_square_def bcast_def subgrid_idex_def
  util_array2image_def util_image2array_def np_repeat_def coords_pixel_size_def

lemma demo_construction:
  "fst (Data_init demo_ext demo_world demo_kwargs 1 False False)
     = \<lparr>heap = [[Fin 3, Fin 4], [Fin 1, Fin 0], [Fin (1 / 1000), Fin 2], [Fin 1, Fin 0],
               [Fin 0, Fin 1], [Fin 0, Fin 0], [Fin (1 / 1000)]],
        printed = [Warn_sigma_b_f (Fin (1 / 1000))]\<rparr>"
  by (simp add: demo_eval)

lemma demo_object:
  "\<exists>obj. snd (Data_init demo_ext demo_world demo_kwargs 1 False False) = Inr obj
         \<and> self_idex_mask obj = [Fin 1, Fin 0] \<and> self_mask_pure obj = [Fin 1, Fin 0]"
  by (simp add: demo_eval)

text \<open>
  C4, amended.  The fit statistics, the reshaping queries and the PSF and resampling
  queries take no heap and write nothing.  \<open>covariance_matrix\<close> and construction do write
  into arrays of their caller.  \<open>covariance_matrix\<close> overwrites in place the entries of a
  map exposure below a tenth of its mean with that floor, and changes no other array; a
  scalar exposure changes nothing.  Construction changes no caller array other than the
  supplied \<open>exposure_map\<close> and \<open>mask\<close>: the non-positive entries of \<open>exposure_map\<close> are
  overwritten with \<open>1e-3\<close>, and when construction completes the entries of \<open>mask\<close> at
  which the index mask is 0 have been overwritten with 0 (the supplied arrays being
  distinct).
\<close>

theorem caller_arrays_written:
  "heap (fst (covariance_matrix w d sigma_b f))
     = (case f of
          ExpScalar x \<Rightarrow> heap w
        | ExpMap p \<Rightarrow> (heap w)[p := map (\<lambda>x. if np_lt x (np_div (np_mean (heap w ! p)) (Fin 10))
                                           then np_div (np_mean (heap w ! p)) (Fin 10) else x)
                                    (heap w ! p)])
   \<and> heap_frame (length (heap w)) (set_option (kw_exposure_map kd) \<union> set_option (kw_mask kd)) w
        (fst (Data_init U w kd k psf llm))
   \<and> (\<forall>e. kw_exposure_map kd = Some e \<and> e < length (heap w) \<and> kw_mask kd \<noteq> Some e
          \<longrightarrow> heap (fst (Data_init U w kd k psf llm)) ! e
               = map (\<lambda>x. if np_le x (Fin 0) then Fin (1 / 1000) else x) (heap w ! e))
   \<and> (\<forall>m obj. snd (Data_init U w kd k psf llm) = Inr obj
          \<and> kw_mask kd = Some m \<and> m < length (heap w)
          \<and> kw_exposure_map kd \<noteq> Some m \<and> kw_idex_mask kd \<noteq> Some m
          \<and> (\<forall>i. kw_idex_mask kd = Some i \<longrightarrow> i < length (heap w))
          \<longrightarrow> heap (fst (Data_init U w kd k psf llm)) ! m = self_mask_pure obj
              \<and> self_mask_pure obj
                  = map2 (\<lambda>x f. if f = Fin 0 then Fin 0 else x) (heap w ! m) (self_idex_mask obj))"
proof (intro conjI allI impI)
  show "heap (fst (covariance_matrix w d sigma_b f))
     = (case f of
          ExpScalar x \<Rightarrow> heap w
        | ExpMap p \<Rightarrow> (heap w)[p := map (\<lambda>x. if np_lt x (np_div (np_mean (heap w ! p)) (Fin 10))
                                           then np_div (np_mean (heap w ! p)) (Fin 10) else x)
                                    (heap w ! p)])"
    by (rule covariance_matrix_heap)
next
  show "heap_frame (length (heap w)) (set_option (kw_exposure_map kd) \<union> set_option (kw_mask kd)) w
        (fst (Data_init U w kd k psf llm))"
    by (rule Data_init_frame)
next
  fix e
  assume "kw_exposure_map kd = Some e \<and> e < length (heap w) \<and> kw_mask kd \<noteq> Some e"
  then show "heap (fst (Data_init U w kd k psf llm)) ! e
               = map (\<lambda>x. if np_le x (Fin 0) then Fin (1 / 1000) else x) (heap w ! e)"
    by (intro Data_init_exposure) simp_all
next
  fix m obj
  assume a: "snd (Data_init U w kd k psf llm) = Inr obj
          \<and> kw_mask kd = Some m \<and> m < length (heap w)
          \<and> kw_exposure_map kd \<noteq> Some m \<and> kw_idex_mask kd \<noteq> Some m
          \<and> (\<forall>i. kw_idex_mask kd = Some i \<longrightarrow> i < length (heap w))"
  then have r: "Data_init U w kd k psf llm = (fst (Data_init U w kd k psf llm), Inr obj)"
    by (simp add: prod_eq_iff)
  have "heap (fst (Data_init U w kd k psf llm)) ! m = self_mask_pure obj
      \<and> self_mask_pure obj
          = map2 (\<lambda>x f. if f = Fin 0 then Fin 0 else x) (heap w ! m) (self_idex_mask obj)"
    by (rule Data_init_mask[OF r]) (use a in simp_all)
  then show "heap (fst (Data_init U w kd k psf llm)) ! m = self_mask_pure obj"
    and "self_mask_pure obj
          = map2 (\<lambda>x f. if f = Fin 0 then Fin 0 else x) (heap w ! m) (self_idex_mask obj)"
    by simp_all
qed

theorem caller_arrays_written_witness:
  "heap (fst (covariance_matrix \<lparr>heap = [[Fin 1, Fin 100]], printed = []\<rparr>
                [Fin 10, Fin 10] (Fin 1) (ExpMap 0))) = [[Fin (101 / 20), Fin 100]]
   \<and> heap (fst (Data_init demo_ext demo_world demo_kwargs 1 False False)) ! 0 = [Fin 3, Fin 4]
   \<and> heap (fst (Data_init demo_ext demo_world demo_kwargs 1 False False)) ! 2
       = [Fin (1 / 1000), Fin 2]
   \<and> heap (fst (Data_init demo_ext demo_world demo_kwargs 1 False False)) ! 3 = [Fin 1, Fin 0]"
proof -
  let ?w' = "fst (Data_init demo_ext demo_world demo_kwargs 1 False False)"
  note T = caller_arrays_written
    [of "\<lparr>heap = [[Fin 1, Fin 100]], printed = []\<rparr>" "[Fin 10, Fin 10]" "Fin 1" "ExpMap 0"]
  note D = caller_arrays_written [of demo_world _ _ _ demo_kwargs demo_ext 1 False False]
  have c: "heap (fst (covariance_matrix \<lparr>heap = [[Fin 1, Fin 100]], printed = []\<rparr>
                [Fin 10, Fin 10] (Fin 1) (ExpMap 0))) = [[Fin (101 / 20), Fin 100]]"
    using T by (simp add: np_mean_def np_sum_def)
  have fr: "heap_frame (length (heap demo_world))
             (set_option (kw_exposure_map demo_kwargs) \<union> set_option (kw_mask demo_kwargs))
             demo_world ?w'"
    using D by blast
  have q0: "heap ?w' ! 0 = [Fin 3, Fin 4]"
    using fr by (simp add: heap_frame_def demo_world_def demo_kwargs_def)
  have "kw_exposure_map demo_kwargs = Some 2 \<and> 2 < length (heap demo_world)
        \<and> kw_mask demo_kwargs \<noteq> Some 2"
    by (simp add: demo_world_def demo_kwargs_def)
  then have "heap ?w' ! 2
      = map (\<lambda>x. if np_le x (Fin 0) then Fin (1 / 1000) else x) (heap demo_world ! 2)"
    using D by blast
  then have q2: "heap ?w' ! 2 = [Fin (1 / 1000), Fin 2]"
    by (simp add: demo_world_def)
  obtain obj where obj: "snd (Data_init demo_ext demo_world demo_kwargs 1 False False) = Inr obj"
      "self_idex_mask obj = [Fin 1, Fin 0]"
    using demo_object by blast
  have "snd (Data_init demo_ext demo_world demo_kwargs 1 False False) = Inr obj
          \<and> kw_mask demo_kwargs = Some 3 \<and> 3 < length (heap demo_world)
          \<and> kw_exposure_map demo_kwargs \<noteq> Some 3 \<and> kw_idex_mask demo_kwargs \<noteq> Some 3
          \<and> (\<forall>i. kw_idex_mask demo_kwargs = Some i \<longrightarrow> i < length (heap demo_world))"
    using obj(1) by (simp add: demo_world_def demo_kwargs_def)
  then have "heap ?w' ! 3 = self_mask_pure obj
     \<and> self_mask_pure obj
         = map2 (\<lambda>x f. if f = Fin 0 then Fin 0 else x) (heap demo_world ! 3) (self_idex_mask obj)"
    using D by blast
  then have q3: "heap ?w' ! 3 = [Fin 1, Fin 0]"
    using obj(2) by (simp add: demo_world_def)
  show ?thesis using c q0 q2 q3 by simp
qed

text \<open>
  C4 as stated fails: \<open>covariance_matrix\<close> raises the entry 1 of the exposure map
  \<open>[1, 100]\<close> to the floor \<open>101/20\<close> in the caller's array, and construction overwrites the
  zero entry of the supplied \<open>exposure_map\<close> with \<open>1/1000\<close> and the second entry of the
  supplied \<open>mask\<close> with 0.
\<close>

theorem caller_arrays_counterexample:
  "heap (fst (covariance_matrix \<lparr>heap = [[Fin 1, Fin 100]], printed = []\<rparr>
                [Fin 10, Fin 10] (Fin 1) (ExpMap 0))) ! 0 \<noteq> [Fin 1, Fin 100]
   \<and> heap demo_world ! 2 = [Fin 0, Fin 2]
   \<and> heap (fst (Data_init demo_ext demo_world demo_kwargs 1 False False)) ! 2
       = [Fin (1 / 1000), Fin 2]
   \<and> heap demo_world ! 3 = [Fin 1, Fin 1]
   \<and> heap (fst (Data_init demo_ext demo_world demo_kwargs 1 False False)) ! 3 = [Fin 1, Fin 0]"
proof -
  have "heap (fst (covariance_matrix \<lparr>heap = [[Fin 1, Fin 100]], printed = []\<rparr>
                [Fin 10, Fin 10] (Fin 1) (ExpMap 0))) ! 0 \<noteq> [Fin 1, Fin 100]"
    by (simp add: covariance_matrix_heap np_mean_def np_sum_def)
  moreover have "heap demo_world ! 2 = [Fin 0, Fin 2]" "heap demo_world ! 3 = [Fin 1, Fin 1]"
    by (simp_all add: demo_world_def)
  moreover have "heap (fst (Data_init demo_ext demo_world demo_kwargs 1 False False)) ! 2
       = [Fin (1 / 1000), Fin 2]"
    "heap (fst (Data_init demo_ext demo_world demo_kwargs 1 False False)) ! 3 = [Fin 1, Fin 0]"
    unfolding demo_construction by simp_all
  ultimately show ?thesis by simp
qed

end
